theory Spec2Isabelle
  imports Complex_Main
begin

section \<open>Python values used by the scripts\<close>

text \<open>
  The scripts are Python 2. Exceptions are values: a function that can raise returns
  \<open>error + 'a\<close>, with \<open>Inl\<close> the exception. \<open>NameError n\<close> is what reading a global
  name \<open>n\<close> that is bound nowhere raises, \<open>UnboundLocalError n\<close> what reading a local
  variable \<open>n\<close> that was never assigned raises, and \<open>Exception m\<close> is
  \<open>Exception(m)\<close> raised by the script itself.
\<close>

datatype error =
    ValueError
  | IndexError
  | TypeError
  | IOError
  | OSError
  | NameError string
  | UnboundLocalError string
  | Exception string

definition bind_err :: "error + 'a \<Rightarrow> ('a \<Rightarrow> error + 'b) \<Rightarrow> error + 'b" where
  "bind_err r f = (case r of Inl e \<Rightarrow> Inl e | Inr v \<Rightarrow> f v)"

subsection \<open>Strings\<close>

definition newline :: char where
  "newline = CHR 0x0A"

text \<open>The characters that \<open>str.strip()\<close> and \<open>str.split()\<close> treat as whitespace.\<close>

definition is_space :: "char \<Rightarrow> bool" where
  "is_space c \<longleftrightarrow> c \<in> set [CHR '' '', CHR 0x09, CHR 0x0A, CHR 0x0B, CHR 0x0C, CHR 0x0D]"

definition strip :: "string \<Rightarrow> string" where
  "strip s = rev (dropWhile is_space (rev (dropWhile is_space s)))"

text \<open>\<open>s.rstrip(chars)\<close>: trailing characters that occur in \<open>chars\<close> are removed.\<close>

definition rstrip_chars :: "string \<Rightarrow> string \<Rightarrow> string" where
  "rstrip_chars chars s = rev (dropWhile (\<lambda>c. c \<in> set chars) (rev s))"

text \<open>\<open>s.split()\<close>: the maximal runs of non-whitespace characters, in order.\<close>

fun split_from :: "string \<Rightarrow> string \<Rightarrow> string list" where
  "split_from cur [] = (if cur = [] then [] else [cur])"
| "split_from cur (c # cs) =
     (if is_space c then (if cur = [] then split_from [] cs else cur # split_from [] cs)
      else split_from (cur @ [c]) cs)"

definition split :: "string \<Rightarrow> string list" where
  "split s = split_from [] s"

text \<open>The slice \<open>s[a:b]\<close> for constant bounds \<open>0 \<le> a \<le> b\<close>; it is shorter, or empty, when
  the string is short.\<close>

definition substr :: "nat \<Rightarrow> nat \<Rightarrow> 'a list \<Rightarrow> 'a list" where
  "substr a b s = take (b - a) (drop a s)"

text \<open>The slice \<open>xs[i:j]\<close> for integers of either sign: a negative index counts from the
  end, and both are clipped to the list.\<close>

definition py_slice :: "'a list \<Rightarrow> int \<Rightarrow> int \<Rightarrow> 'a list" where
  "py_slice xs i j =
     (let n = int (length xs);
          lo = (if i < 0 then max (i + n) 0 else min i n);
          hi = (if j < 0 then max (j + n) 0 else min j n)
      in take (nat (hi - lo)) (drop (nat lo) xs))"

text \<open>\<open>file.readlines()\<close>: the content cut after every newline; each line keeps its
  newline, and the last line has none when the content does not end with one.\<close>

fun readlines :: "string \<Rightarrow> string list" where
  "readlines [] = []"
| "readlines (c # cs) =
     (if c = newline then [c] # readlines cs
      else (case readlines cs of [] \<Rightarrow> [[c]] | l # ls \<Rightarrow> (c # l) # ls))"

subsection \<open>Integers as text\<close>

definition is_digit :: "char \<Rightarrow> bool" where
  "is_digit c \<longleftrightarrow> c \<in> set ''0123456789''"

text \<open>The value of a digit is its position among the ten digits.\<close>

definition digit_val :: "char \<Rightarrow> nat" where
  "digit_val c = length (takeWhile (\<lambda>d. d \<noteq> c) ''0123456789'')"

definition digit_char :: "nat \<Rightarrow> char" where
  "digit_char d = ''0123456789'' ! d"

function show_nat :: "nat \<Rightarrow> string" where
  "show_nat n = (if n < 10 then [digit_char n] else show_nat (n div 10) @ [digit_char (n mod 10)])"
  by pat_completeness auto
termination
  by (relation "measure id") auto

declare show_nat.simps [simp del]

text \<open>\<open>str(n)\<close> for an integer, which is what \<open>%d\<close> prints.\<close>

definition show_int :: "int \<Rightarrow> string" where
  "show_int n = (if n < 0 then CHR ''-'' # show_nat (nat (- n)) else show_nat (nat n))"

definition nat_of_digits :: "string \<Rightarrow> nat" where
  "nat_of_digits s = foldl (\<lambda>a c. 10 * a + digit_val c) 0 s"

definition digits_value :: "string \<Rightarrow> error + int" where
  "digits_value s =
     (if s \<noteq> [] \<and> list_all is_digit s then Inr (int (nat_of_digits s)) else Inl ValueError)"

text \<open>\<open>int(s)\<close> for a string in base 10: whitespace around the text is ignored, then an
  optional sign and a non-empty run of decimal digits; anything else, the empty and the
  blank string included, raises ValueError.\<close>

definition py_int :: "string \<Rightarrow> error + int" where
  "py_int s =
     (case strip s of
        [] \<Rightarrow> Inl ValueError
      | c # cs \<Rightarrow>
          if c = CHR ''-'' then bind_err (digits_value cs) (\<lambda>n. Inr (- n))
          else if c = CHR ''+'' then digits_value cs
          else digits_value (c # cs))"

subsection \<open>The \<open>%\<close> conversions\<close>

text \<open>A minimum field width pads on the left with blanks and never truncates.\<close>

definition rjust :: "nat \<Rightarrow> string \<Rightarrow> string" where
  "rjust w s = replicate (w - length s) CHR '' '' @ s"

definition fmt_d :: "nat \<Rightarrow> int \<Rightarrow> string" where
  "fmt_d w n = rjust w (show_int n)"

definition fmt_s :: "nat \<Rightarrow> string \<Rightarrow> string" where
  "fmt_s w s = rjust w s"

text \<open>\<open>%c\<close> takes a string of exactly one character; any other length is a TypeError.\<close>

definition fmt_c :: "string \<Rightarrow> error + string" where
  "fmt_c s = (if length s = 1 then Inr s else Inl TypeError)"

subsection \<open>Floats\<close>

text \<open>
  Python floats are IEEE doubles, and the scripts only read them from text, print them
  and copy them. The float type is therefore a parameter \<open>'f\<close>, together with the two
  library functions the scripts call on it and the two literals they use:
  \<open>float_repr p v\<close> is the text of \<open>'%.pf' % v\<close> (before any padding to a width),
  \<open>float_parse t\<close> is the value \<open>float(t)\<close> of a text without surrounding whitespace
  (\<open>None\<close> when it is no float literal), \<open>float_one\<close> is \<open>1.0\<close> and \<open>float_zero\<close> is \<open>0.0\<close>.
\<close>

record 'f pyfloat =
  float_repr :: "nat \<Rightarrow> 'f \<Rightarrow> string"
  float_parse :: "string \<Rightarrow> 'f option"
  float_one :: 'f
  float_zero :: 'f

text \<open>\<open>float(s)\<close>: whitespace around the text is ignored; a blank string and a text that is
  no literal raise ValueError.\<close>

definition py_float :: "'f pyfloat \<Rightarrow> string \<Rightarrow> error + 'f" where
  "py_float F s =
     (if strip s = [] then Inl ValueError
      else (case float_parse F (strip s) of None \<Rightarrow> Inl ValueError | Some v \<Rightarrow> Inr v))"

text \<open>\<open>'%w.pf' % v\<close>.\<close>

definition fmt_f :: "'f pyfloat \<Rightarrow> nat \<Rightarrow> nat \<Rightarrow> 'f \<Rightarrow> string" where
  "fmt_f F w p v = rjust w (float_repr F p v)"

section \<open>Files\<close>

text \<open>
  A file system maps a path to the content of the file there. \<open>open(path, 'r')\<close> of a
  path with no file raises IOError; \<open>open(path, 'w')\<close> replaces the whole content.
\<close>

type_synonym filesystem = "string \<Rightarrow> string option"

section \<open>Atom records of a PDB file (packmoltools/resolvate.py)\<close>

text \<open>
  The scripts keep an atom as a dictionary with a fixed set of keys; here it is a record
  with one field per key. The keys \<open>x\<close>, \<open>y\<close> and \<open>z\<close> are the fields \<open>pos_x\<close>, \<open>pos_y\<close>
  and \<open>pos_z\<close>.
\<close>

record 'f atom =
  serial :: int
  name :: string
  altLoc :: string
  resName :: string
  chainID :: string
  resSeq :: int
  iCode :: string
  pos_x :: 'f
  pos_y :: 'f
  pos_z :: 'f
  occupancy :: 'f
  tempFactor :: 'f
  segID :: string
  element :: string
  charge :: string

definition is_atom_line :: "string \<Rightarrow> bool" where
  "is_atom_line line \<longleftrightarrow> substr 0 6 line = ''ATOM  ''"

subsection \<open>getPresentSequence\<close>

text \<open>The body of the loop for one ATOM line: both integer columns are converted before
  the chain is compared, so either can raise.\<close>

definition sequence_fields :: "string \<Rightarrow> error + (string \<times> int \<times> string)" where
  "sequence_fields line =
     bind_err (py_int (substr 6 11 line)) (\<lambda>serial_v.
     bind_err (py_int (substr 22 26 line)) (\<lambda>resSeq_v.
       Inr (substr 21 22 line, resSeq_v, substr 17 20 line)))"

fun getPresentSequence_loop ::
  "string \<Rightarrow> string list \<Rightarrow> string list \<Rightarrow> int option \<Rightarrow> error + string list" where
  "getPresentSequence_loop chain [] sequence last_resSeq = Inr sequence"
| "getPresentSequence_loop chain (line # lines) sequence last_resSeq =
     (if is_atom_line line then
        (case sequence_fields line of
           Inl e \<Rightarrow> Inl e
         | Inr (chainID_v, resSeq_v, resName_v) \<Rightarrow>
             if chain = chainID_v then
               (if Some resSeq_v \<noteq> last_resSeq
                then getPresentSequence_loop chain lines (sequence @ [resName_v]) (Some resSeq_v)
                else getPresentSequence_loop chain lines sequence last_resSeq)
             else getPresentSequence_loop chain lines sequence last_resSeq)
      else getPresentSequence_loop chain lines sequence last_resSeq)"

definition getPresentSequence :: "filesystem \<Rightarrow> string \<Rightarrow> string \<Rightarrow> error + string list" where
  "getPresentSequence fs pdbfilename chain =
     (case fs pdbfilename of
        None \<Rightarrow> Inl IOError
      | Some content \<Rightarrow> getPresentSequence_loop chain (readlines content) [] None)"

subsection \<open>readAtomsFromPDB\<close>

definition parse_atom :: "'f pyfloat \<Rightarrow> string \<Rightarrow> error + 'f atom" where
  "parse_atom F line =
     bind_err (py_int (substr 6 11 line)) (\<lambda>serial_v.
     bind_err (py_int (substr 22 26 line)) (\<lambda>resSeq_v.
     bind_err (py_float F (substr 30 38 line)) (\<lambda>x_v.
     bind_err (py_float F (substr 38 46 line)) (\<lambda>y_v.
     bind_err (py_float F (substr 46 54 line)) (\<lambda>z_v.
     bind_err (if strip (substr 54 60 line) \<noteq> [] then py_float F (substr 54 60 line)
               else Inr (float_one F)) (\<lambda>occupancy_v.
     bind_err (if strip (substr 60 66 line) \<noteq> [] then py_float F (substr 60 66 line)
               else Inr (float_zero F)) (\<lambda>tempFactor_v.
       Inr \<lparr> serial = serial_v, name = substr 12 16 line, altLoc = substr 16 17 line,
             resName = substr 17 20 line, chainID = substr 21 22 line, resSeq = resSeq_v,
             iCode = substr 26 27 line, pos_x = x_v, pos_y = y_v, pos_z = z_v,
             occupancy = occupancy_v, tempFactor = tempFactor_v,
             segID = substr 72 76 line, element = substr 76 78 line,
             charge = substr 78 80 line \<rparr>)))))))"

fun readAtoms_loop :: "'f pyfloat \<Rightarrow> string list \<Rightarrow> 'f atom list \<Rightarrow> error + 'f atom list" where
  "readAtoms_loop F [] atoms = Inr atoms"
| "readAtoms_loop F (line # lines) atoms =
     (if is_atom_line line then
        (case parse_atom F line of
           Inl e \<Rightarrow> Inl e
         | Inr a \<Rightarrow> readAtoms_loop F lines (atoms @ [a]))
      else readAtoms_loop F lines atoms)"

definition readAtomsFromPDB :: "'f pyfloat \<Rightarrow> filesystem \<Rightarrow> string \<Rightarrow> error + 'f atom list" where
  "readAtomsFromPDB F fs pdbfilename =
     (case fs pdbfilename of
        None \<Rightarrow> Inl IOError
      | Some content \<Rightarrow> readAtoms_loop F (readlines content) [])"

subsection \<open>writeAtomsToPDB\<close>

text \<open>
  The list holds the atom dictionaries by reference and the renumbering loop assigns to
  their keys, so the dictionaries live in a store and the list \<open>atoms\<close> is a list of
  addresses; a dictionary that the list holds twice is visited, and assigned to, twice.
\<close>

type_synonym 'f objects = "nat \<Rightarrow> 'f atom"

text \<open>The renumbering loop. \<open>serial_c\<close> and \<open>resSeq_c\<close> are the two counters and
  \<open>last_resSeq\<close> is \<open>None\<close> before the first atom. Each pass assigns the serial number,
  then reads the residue number that the dictionary holds at that moment, then assigns
  the new residue number.\<close>

fun renumber_loop :: "nat list \<Rightarrow> int \<Rightarrow> int \<Rightarrow> int option \<Rightarrow> 'f objects \<Rightarrow> 'f objects" where
  "renumber_loop [] serial_c resSeq_c last_resSeq objs = objs"
| "renumber_loop (atom # atoms) serial_c resSeq_c last_resSeq objs =
     (let objs1 = objs(atom := (objs atom)\<lparr>serial := serial_c\<rparr>);
          held = resSeq (objs1 atom)
      in if Some held \<noteq> last_resSeq
         then renumber_loop atoms (serial_c + 1) (resSeq_c + 1) (Some held)
                (objs1(atom := (objs1 atom)\<lparr>resSeq := resSeq_c + 1\<rparr>))
         else renumber_loop atoms (serial_c + 1) resSeq_c last_resSeq
                (objs1(atom := (objs1 atom)\<lparr>resSeq := resSeq_c\<rparr>)))"

text \<open>The pass starts by reading \<open>atoms[0]\<close>, an IndexError on an empty list.\<close>

definition renumber_atoms :: "nat list \<Rightarrow> 'f objects \<Rightarrow> error + 'f objects" where
  "renumber_atoms atoms objs =
     (if atoms = [] then Inl IndexError else Inr (renumber_loop atoms 1 0 None objs))"

text \<open>One line of output, \<open>'ATOM  %(serial)5d %(name)4s%(altLoc)c%(resName)3s
  %(chainID)c%(resSeq)4d%(iCode)c   %(x)8.3f%(y)8.3f%(z)8.3f%(occupancy)6.2f%(tempFactor)6.2f%(element)2s%(charge)2s\n'\<close>.\<close>

definition format_atom :: "'f pyfloat \<Rightarrow> 'f atom \<Rightarrow> error + string" where
  "format_atom F a =
     bind_err (fmt_c (altLoc a)) (\<lambda>altLoc_t.
     bind_err (fmt_c (chainID a)) (\<lambda>chainID_t.
     bind_err (fmt_c (iCode a)) (\<lambda>iCode_t.
       Inr (''ATOM  '' @ fmt_d 5 (serial a) @ '' '' @ fmt_s 4 (name a) @ altLoc_t
            @ fmt_s 3 (resName a) @ '' '' @ chainID_t @ fmt_d 4 (resSeq a) @ iCode_t @ ''   ''
            @ fmt_f F 8 3 (pos_x a) @ fmt_f F 8 3 (pos_y a) @ fmt_f F 8 3 (pos_z a)
            @ fmt_f F 6 2 (occupancy a) @ fmt_f F 6 2 (tempFactor a)
            @ fmt_s 2 (element a) @ fmt_s 2 (charge a) @ [newline]))))"

text \<open>The writing loop, with the text written so far; a line that cannot be formatted
  stops it, and what was written before stays in the file.\<close>

fun write_atoms :: "'f pyfloat \<Rightarrow> 'f atom list \<Rightarrow> string \<Rightarrow> (error + unit) \<times> string" where
  "write_atoms F [] out = (Inr (), out)"
| "write_atoms F (a # as) out =
     (case format_atom F a of
        Inl e \<Rightarrow> (Inl e, out)
      | Inr l \<Rightarrow> write_atoms F as (out @ l))"

text \<open>The result, the store of dictionaries after the call (renumbering assigns to the
  caller's dictionaries) and the file system after the call. The lines are printed from
  the dictionaries as they are after the renumbering.\<close>

definition writeAtomsToPDB ::
  "'f pyfloat \<Rightarrow> filesystem \<Rightarrow> string \<Rightarrow> nat list \<Rightarrow> bool \<Rightarrow> 'f objects
     \<Rightarrow> (error + unit) \<times> 'f objects \<times> filesystem" where
  "writeAtomsToPDB F fs pdbfilename atoms renumber objs =
     (case (if renumber then renumber_atoms atoms objs else Inr objs) of
        Inl e \<Rightarrow> (Inl e, objs, fs)
      | Inr objs' \<Rightarrow>
          (case write_atoms F (map objs' atoms) [] of
             (r, out) \<Rightarrow> (r, objs', fs(pdbfilename \<mapsto> out))))"

section \<open>AMBER coordinate files (packmoltools/resolvate.py)\<close>

subsection \<open>readAmberCrd\<close>

fun floats_of_elements :: "'f pyfloat \<Rightarrow> string list \<Rightarrow> 'f list \<Rightarrow> error + 'f list" where
  "floats_of_elements F [] coordinates = Inr coordinates"
| "floats_of_elements F (e # es) coordinates =
     (case py_float F e of
        Inl err \<Rightarrow> Inl err
      | Inr v \<Rightarrow> floats_of_elements F es (coordinates @ [v]))"

fun read_coordinates :: "'f pyfloat \<Rightarrow> string list \<Rightarrow> 'f list \<Rightarrow> error + 'f list" where
  "read_coordinates F [] coordinates = Inr coordinates"
| "read_coordinates F (line # lines) coordinates =
     (case floats_of_elements F (split line) coordinates of
        Inl err \<Rightarrow> Inl err
      | Inr coordinates' \<Rightarrow> read_coordinates F lines coordinates')"

text \<open>
  The end of the function. The two box variables are assigned only under their
  conditions, so each is an option here: \<open>None\<close> is a local that was never bound, and
  the return statement, which reads \<open>box_dimensions\<close> before \<open>box_angles\<close>, raises
  UnboundLocalError on the first one that is not bound. In the returned tuple a box
  field is an option as well, \<open>None\<close> being Python's \<open>None\<close> of the docstring.
\<close>

definition extract_box ::
  "string \<Rightarrow> int \<Rightarrow> 'f list
     \<Rightarrow> error + (string \<times> int \<times> 'f list \<times> 'f list option \<times> 'f list option)" where
  "extract_box title natoms coordinates =
     (let box_dimensions_b =
            (if int (length coordinates) \<ge> 3 * natoms + 3
             then Some (py_slice coordinates (3 * natoms) (3 * natoms + 3)) else None);
          box_angles_b =
            (if int (length coordinates) = 3 * natoms + 6
             then Some (py_slice coordinates (3 * natoms + 3) (3 * natoms + 6)) else None);
          coordinates' = py_slice coordinates 0 (3 * natoms)
      in (case box_dimensions_b of
            None \<Rightarrow> Inl (UnboundLocalError ''box_dimensions'')
          | Some box_dimensions \<Rightarrow>
              (case box_angles_b of
                 None \<Rightarrow> Inl (UnboundLocalError ''box_angles'')
               | Some box_angles \<Rightarrow>
                   Inr (title, natoms, coordinates', Some box_dimensions, Some box_angles))))"

text \<open>\<open>lines.pop(0)\<close> of an empty list and \<open>split()[0]\<close> of a blank line are IndexErrors.\<close>

definition readAmberCrd_lines ::
  "'f pyfloat \<Rightarrow> string list
     \<Rightarrow> error + (string \<times> int \<times> 'f list \<times> 'f list option \<times> 'f list option)" where
  "readAmberCrd_lines F lines0 =
     (case lines0 of
        [] \<Rightarrow> Inl IndexError
      | l0 # lines1 \<Rightarrow>
          (case lines1 of
             [] \<Rightarrow> Inl IndexError
           | l1 # lines \<Rightarrow>
               (case split l1 of
                  [] \<Rightarrow> Inl IndexError
                | tok # _ \<Rightarrow>
                    bind_err (py_int tok) (\<lambda>natoms.
                    bind_err (read_coordinates F lines []) (\<lambda>coordinates.
                      extract_box (rstrip_chars [CHR '' '', newline] l0) natoms coordinates)))))"

definition readAmberCrd ::
  "'f pyfloat \<Rightarrow> filesystem \<Rightarrow> string
     \<Rightarrow> error + (string \<times> int \<times> 'f list \<times> 'f list option \<times> 'f list option)" where
  "readAmberCrd F fs crd_filename =
     (case fs crd_filename of
        None \<Rightarrow> Inl IOError
      | Some content \<Rightarrow> readAmberCrd_lines F (readlines content))"

subsection \<open>writeAmberCrd\<close>

text \<open>
  The function appends to the list object it was given, so lists live in a store and
  the three list arguments are addresses; \<open>None\<close> is Python's \<open>None\<close>. A list is true
  when it is not empty.

  The first statement is \<open>raise ParameterError(...)\<close> under the length check. The module
  defines no \<open>ParameterError\<close> and imports none (its imports are \<open>sys\<close>, \<open>os.path\<close>,
  \<open>optparse.OptionParser\<close>, \<open>commands\<close>, \<open>shutil\<close> and \<open>tempfile\<close>), so evaluating the
  name is what raises, and the exception is a NameError.
\<close>

type_synonym 'f heap = "nat \<Rightarrow> 'f list"

definition append_if_true :: "'f heap \<Rightarrow> nat \<Rightarrow> nat option \<Rightarrow> 'f heap" where
  "append_if_true h target arg =
     (case arg of
        None \<Rightarrow> h
      | Some r \<Rightarrow> if h r \<noteq> [] then h(target := h target @ h r) else h)"

text \<open>The writing loop with its counter \<open>coordinates_this_line\<close>.\<close>

fun write_coordinates :: "'f pyfloat \<Rightarrow> 'f list \<Rightarrow> nat \<Rightarrow> string" where
  "write_coordinates F [] coordinates_this_line = []"
| "write_coordinates F (c # cs) coordinates_this_line =
     fmt_f F 12 7 c @
       (if coordinates_this_line + 1 = 6 then newline # write_coordinates F cs 0
        else write_coordinates F cs (coordinates_this_line + 1))"

definition writeAmberCrd ::
  "'f pyfloat \<Rightarrow> string \<Rightarrow> nat \<Rightarrow> string \<Rightarrow> nat option \<Rightarrow> nat option
     \<Rightarrow> 'f heap \<times> filesystem \<Rightarrow> (error + unit) \<times> 'f heap \<times> filesystem" where
  "writeAmberCrd F crd_filename coordinates title box_dimensions box_angles st =
     (case st of (h, fs) \<Rightarrow>
        if length (h coordinates) mod 3 \<noteq> 0 then (Inl (NameError ''ParameterError''), h, fs)
        else
          (let natoms = length (h coordinates) div 3;
               h1 = append_if_true h coordinates box_dimensions;
               h2 = append_if_true h1 coordinates box_angles;
               out = title @ [newline] @ fmt_d 6 (int natoms) @ [newline]
                     @ write_coordinates F (h2 coordinates) 0
           in (Inr (), h2, fs(crd_filename \<mapsto> out))))"

section \<open>External tools\<close>

text \<open>
  A subprocess is outside the scripts: it is a parameter that gives, for a command and
  the files it finds, what the caller gets back and the files it leaves. A world is the
  file system and the list of the commands started so far.
\<close>

datatype command = Argv "string list" | Shell string

record world =
  files :: filesystem
  invoked :: "command list"

text \<open>\<open>os.path.join\<close> of two parts and \<open>os.path.split\<close> (posixpath).\<close>

definition path_join :: "string \<Rightarrow> string \<Rightarrow> string" where
  "path_join a b =
     (if b \<noteq> [] \<and> hd b = CHR ''/'' then b
      else if a = [] \<or> last a = CHR ''/'' then a @ b
      else a @ ''/'' @ b)"

definition path_split :: "string \<Rightarrow> string \<times> string" where
  "path_split p =
     (let tail = rev (takeWhile (\<lambda>c. c \<noteq> CHR ''/'') (rev p));
          head = rev (dropWhile (\<lambda>c. c \<noteq> CHR ''/'') (rev p))
      in (if head \<noteq> [] \<and> \<not> list_all (\<lambda>c. c = CHR ''/'') head
          then rstrip_chars ''/'' head else head, tail))"

subsection \<open>The packing step of resolvate.py\<close>

text \<open>
  \<open>commands.getoutput(cmd)\<close> runs the command in a shell and returns what it printed;
  the exit status, which \<open>commands.getstatusoutput\<close> would return with it, is dropped.
  The shell tool gives the status, the output and the files left.
\<close>

type_synonym shell_tool = "string \<Rightarrow> filesystem \<Rightarrow> (int \<times> string) \<times> filesystem"

definition getoutput :: "shell_tool \<Rightarrow> string \<Rightarrow> world \<Rightarrow> string \<times> world" where
  "getoutput sh cmd w =
     (case sh cmd (files w) of
        ((status, output), fs') \<Rightarrow> (output, \<lparr> files = fs', invoked = invoked w @ [Shell cmd] \<rparr>))"

text \<open>Execute Packmol, then read the output PDB file (the \<open>print\<close> statements are left
  out).\<close>

definition packmol_step ::
  "shell_tool \<Rightarrow> 'f pyfloat \<Rightarrow> string \<Rightarrow> string \<Rightarrow> string \<Rightarrow> world
     \<Rightarrow> (error + 'f atom list) \<times> world" where
  "packmol_step sh F packmol tmpdir packmol_input_filename w =
     (let command = ''cd '' @ tmpdir @ '' ; '' @ packmol @ '' < '' @ packmol_input_filename
      in (case getoutput sh command w of
            (output, w') \<Rightarrow>
              (readAtomsFromPDB F (files w') (path_join tmpdir ''output.pdb''), w')))"

subsection \<open>gromacs_energies (testing/gromacs_energies.py)\<close>

text \<open>
  \<open>subprocess.call\<close> returns the exit status, or raises OSError when the program
  cannot be started. The two log files are opened for writing around each call, which
  empties them.
\<close>

type_synonym subprocess = "command \<Rightarrow> filesystem \<Rightarrow> (error + int) \<times> filesystem"

definition call :: "subprocess \<Rightarrow> command \<Rightarrow> string \<Rightarrow> string \<Rightarrow> world \<Rightarrow> (error + int) \<times> world" where
  "call run cmd stdout stderr w =
     (case run cmd ((files w)(stdout \<mapsto> [], stderr \<mapsto> [])) of
        (r, fs') \<Rightarrow> (r, \<lparr> files = fs', invoked = invoked w @ [cmd] \<rparr>))"

definition select :: string where
  "select = ''1 2 3 4 5 6 7 8 9 10 11 12 13 14 15 16 17 18 19 0 ''"

text \<open>The three commands, as the function builds them from its arguments; \<open>top_v\<close> is the
  argument \<open>top\<close>. Every file of the run is placed in the directory of the topology.\<close>

definition run_file :: "string \<Rightarrow> string \<Rightarrow> string" where
  "run_file top_v file_name = path_join (fst (path_split top_v)) file_name"

definition grompp_cmd :: "string \<Rightarrow> string \<Rightarrow> string \<Rightarrow> string \<Rightarrow> string \<Rightarrow> command" where
  "grompp_cmd top_v gro mdp gropath grosuff =
     Argv [path_join gropath (''grompp'' @ grosuff), ''-f'', mdp, ''-c'', gro, ''-p'', top_v,
           ''-o'', run_file top_v ''topol.tpr'', ''-po'', run_file top_v ''mdout.mdp'',
           ''-maxwarn'', ''1'']"

definition mdrun_cmd :: "string \<Rightarrow> string \<Rightarrow> string \<Rightarrow> command" where
  "mdrun_cmd top_v gropath grosuff =
     Argv [path_join gropath (''mdrun'' @ grosuff), ''-nt'', ''1'',
           ''-s'', run_file top_v ''topol.tpr'', ''-o'', run_file top_v ''traj.trr'',
           ''-cpo'', run_file top_v ''state.cpt'', ''-c'', run_file top_v ''confout.gro'',
           ''-e'', run_file top_v ''ener.edr'', ''-g'', run_file top_v ''md.log'']"

definition genergy_cmd :: "string \<Rightarrow> string \<Rightarrow> string \<Rightarrow> command" where
  "genergy_cmd top_v gropath grosuff =
     Shell (''echo '' @ select @ '' | '' @ path_join gropath (''g_energy'' @ grosuff)
            @ '' -f '' @ run_file top_v ''ener.edr''
            @ '' -o '' @ run_file top_v ''energy.xvg'' @ '' -dp'')"

text \<open>
  The function up to the extraction of the energies. The extraction itself (the parse
  of the table that \<open>g_energy\<close> wrote) is the parameter \<open>parse_energies\<close>; it is given the lines
  of the table. The result is \<open>None\<close> for the early return of \<open>grompp_check\<close>.
\<close>

definition gromacs_energies ::
  "subprocess \<Rightarrow> (string list \<Rightarrow> error + 'r) \<Rightarrow> string \<Rightarrow> string \<Rightarrow> string \<Rightarrow> string \<Rightarrow> string
     \<Rightarrow> bool \<Rightarrow> world \<Rightarrow> (error + ('r \<times> string) option) \<times> world" where
  "gromacs_energies run parse_energies top_v gro mdp gropath grosuff grompp_check w =
     (let ener_xvg = run_file top_v ''energy.xvg'';
          stdout = run_file top_v ''gromacs_stdout.txt'';
          stderr = run_file top_v ''gromacs_stderr.txt''
      in (case call run (grompp_cmd top_v gro mdp gropath grosuff) stdout stderr w of
            (Inl e, w1) \<Rightarrow> (Inl e, w1)
          | (Inr exit1, w1) \<Rightarrow>
              if exit1 \<noteq> 0 then (Inl (Exception (''grompp failed for '' @ top_v)), w1)
              else if grompp_check then (Inr None, w1)
              else
                (case call run (mdrun_cmd top_v gropath grosuff) stdout stderr w1 of
                   (Inl e, w2) \<Rightarrow> (Inl e, w2)
                 | (Inr exit2, w2) \<Rightarrow>
                     if exit2 \<noteq> 0 then (Inl (Exception (''mdrun failed for '' @ top_v)), w2)
                     else
                       (case call run (genergy_cmd top_v gropath grosuff) stdout stderr w2 of
                          (Inl e, w3) \<Rightarrow> (Inl e, w3)
                        | (Inr exit3, w3) \<Rightarrow>
                            if exit3 \<noteq> 0
                            then (Inl (Exception (''g_energy failed for '' @ top_v)), w3)
                            else
                              (case files w3 ener_xvg of
                                 None \<Rightarrow> (Inl IOError, w3)
                               | Some content \<Rightarrow>
                                   (case parse_energies (readlines content) of
                                      Inl e \<Rightarrow> (Inl e, w3)
                                    | Inr e_out \<Rightarrow> (Inr (Some (e_out, ener_xvg)), w3)))))))"

section \<open>Floats as fixed-point decimals, for running the scripts on examples\<close>

text \<open>
  One instance of the float parameter: a float is an integer number of units of
  \<open>10\<^sup>-\<^sup>k\<close> (with \<open>k = 3\<close>, of thousandths, the resolution of a PDB coordinate).
  Printing with \<open>p\<close> places rounds to the nearest decimal, ties to even; reading takes a
  decimal literal, an optional sign, digits and at most one point, with at most \<open>k\<close>
  significant places. Exponents, \<open>inf\<close> and \<open>nan\<close> are not literals of this instance.
\<close>

definition round_div :: "nat \<Rightarrow> nat \<Rightarrow> nat" where
  "round_div n d =
     (let q = n div d; r = n mod d
      in if 2 * r < d then q else if d < 2 * r then q + 1 else if even q then q else q + 1)"

definition zero_pad :: "nat \<Rightarrow> string \<Rightarrow> string" where
  "zero_pad p s = replicate (p - length s) CHR ''0'' @ s"

definition fixed_repr :: "nat \<Rightarrow> nat \<Rightarrow> int \<Rightarrow> string" where
  "fixed_repr k p v =
     (let n = (if k \<le> p then nat \<bar>v\<bar> * 10 ^ (p - k) else round_div (nat \<bar>v\<bar>) (10 ^ (k - p)))
      in (if v < 0 then ''-'' else [])
         @ show_nat (n div 10 ^ p)
         @ (if p = 0 then [] else CHR ''.'' # zero_pad p (show_nat (n mod 10 ^ p))))"

definition fixed_parse :: "nat \<Rightarrow> string \<Rightarrow> int option" where
  "fixed_parse k t =
     (let neg = (t \<noteq> [] \<and> hd t = CHR ''-'');
          u = (if t \<noteq> [] \<and> (hd t = CHR ''-'' \<or> hd t = CHR ''+'') then tl t else t);
          ip = takeWhile (\<lambda>c. c \<noteq> CHR ''.'') u;
          fp = drop 1 (dropWhile (\<lambda>c. c \<noteq> CHR ''.'') u)
      in if list_all is_digit ip \<and> list_all is_digit fp \<and> \<not> (ip = [] \<and> fp = [])
            \<and> list_all (\<lambda>c. c = CHR ''0'') (drop k fp)
         then Some ((if neg then - 1 else 1)
                    * int (nat_of_digits (ip @ take k fp) * 10 ^ (k - length fp)))
         else None)"

definition fixed_floats :: "nat \<Rightarrow> int pyfloat" where
  "fixed_floats k =
     \<lparr> float_repr = fixed_repr k, float_parse = fixed_parse k,
       float_one = 10 ^ k, float_zero = 0 \<rparr>"

section \<open>The notions the properties are stated with\<close>

subsection \<open>Representable atom records\<close>

text \<open>
  A float is representable in a column of width \<open>w\<close> with \<open>p\<close> places when its printed
  text is not empty, holds no whitespace, fits the column and reads back as the same
  float. A string is representable in a column when it has exactly the column's width
  and holds no newline.
\<close>

definition representable_float :: "'f pyfloat \<Rightarrow> nat \<Rightarrow> nat \<Rightarrow> 'f \<Rightarrow> bool" where
  "representable_float F w p v \<longleftrightarrow>
     float_repr F p v \<noteq> [] \<and> list_all (\<lambda>c. \<not> is_space c) (float_repr F p v)
     \<and> length (float_repr F p v) \<le> w \<and> float_parse F (float_repr F p v) = Some v"

definition fixed_text :: "nat \<Rightarrow> string \<Rightarrow> bool" where
  "fixed_text w s \<longleftrightarrow> length s = w \<and> list_all (\<lambda>c. c \<noteq> newline) s"

definition representable :: "'f pyfloat \<Rightarrow> 'f atom \<Rightarrow> bool" where
  "representable F a \<longleftrightarrow>
     - 9999 \<le> serial a \<and> serial a \<le> 99999
     \<and> fixed_text 4 (name a) \<and> fixed_text 1 (altLoc a) \<and> fixed_text 3 (resName a)
     \<and> fixed_text 1 (chainID a)
     \<and> - 999 \<le> resSeq a \<and> resSeq a \<le> 9999
     \<and> fixed_text 1 (iCode a)
     \<and> representable_float F 8 3 (pos_x a) \<and> representable_float F 8 3 (pos_y a)
     \<and> representable_float F 8 3 (pos_z a)
     \<and> representable_float F 6 2 (occupancy a) \<and> representable_float F 6 2 (tempFactor a)
     \<and> list_all (\<lambda>c. c \<noteq> newline) (element a) \<and> list_all (\<lambda>c. c \<noteq> newline) (charge a)"

text \<open>The twelve fields of the round trip.\<close>

definition core ::
  "'f atom \<Rightarrow> int \<times> string \<times> string \<times> string \<times> string \<times> int \<times> string \<times> 'f \<times> 'f \<times> 'f \<times> 'f \<times> 'f" where
  "core a = (serial a, name a, altLoc a, resName a, chainID a, resSeq a, iCode a,
             pos_x a, pos_y a, pos_z a, occupancy a, tempFactor a)"

subsection \<open>Columns of an atom line\<close>

definition blank :: "string \<Rightarrow> bool" where
  "blank s \<longleftrightarrow> strip s = []"

definition numeric_int :: "string \<Rightarrow> bool" where
  "numeric_int s = (case py_int s of Inl e \<Rightarrow> False | Inr n \<Rightarrow> True)"

definition numeric_float :: "'f pyfloat \<Rightarrow> string \<Rightarrow> bool" where
  "numeric_float F s = (case py_float F s of Inl e \<Rightarrow> False | Inr v \<Rightarrow> True)"

text \<open>The five mandatory columns: serial, residue sequence number, x, y and z.\<close>

definition mandatory_ok :: "'f pyfloat \<Rightarrow> string \<Rightarrow> bool" where
  "mandatory_ok F line \<longleftrightarrow>
     numeric_int (substr 6 11 line) \<and> numeric_int (substr 22 26 line)
     \<and> numeric_float F (substr 30 38 line) \<and> numeric_float F (substr 38 46 line)
     \<and> numeric_float F (substr 46 54 line)"

text \<open>The two defaulted columns, occupancy and temperature factor: each is blank (an
  absent column is blank) or numeric.\<close>

definition defaulted_ok :: "'f pyfloat \<Rightarrow> string \<Rightarrow> bool" where
  "defaulted_ok F line \<longleftrightarrow>
     (blank (substr 54 60 line) \<or> numeric_float F (substr 54 60 line))
     \<and> (blank (substr 60 66 line) \<or> numeric_float F (substr 60 66 line))"

subsection \<open>Runs of residue numbers\<close>

text \<open>Every element converted, or the first exception.\<close>

fun collect :: "('a \<Rightarrow> error + 'b) \<Rightarrow> 'a list \<Rightarrow> error + 'b list" where
  "collect f [] = Inr []"
| "collect f (x # xs) =
     (case f x of
        Inl e \<Rightarrow> Inl e
      | Inr y \<Rightarrow> (case collect f xs of Inl e \<Rightarrow> Inl e | Inr ys \<Rightarrow> Inr (y # ys)))"

text \<open>The maximal runs of consecutive elements with equal keys.\<close>

function runs :: "('a \<Rightarrow> 'k) \<Rightarrow> 'a list \<Rightarrow> 'a list list" where
  "runs key [] = []"
| "runs key (x # xs) =
     (x # takeWhile (\<lambda>y. key y = key x) xs) # runs key (dropWhile (\<lambda>y. key y = key x) xs)"
  by pat_completeness auto
termination
  by (relation "measure (\<lambda>(key, xs). length xs)") (auto simp: length_dropWhile_le less_Suc_eq_le)

text \<open>
  The present sequence as the specification words it, over the (chain identifier,
  residue sequence number, residue name) triples of the atom lines: the lines of the
  requested chain, cut into runs of equal residue sequence number, one residue name
  (that of the run's first line) per run.
\<close>

definition present_sequence_spec :: "string \<Rightarrow> (string \<times> int \<times> string) list \<Rightarrow> string list" where
  "present_sequence_spec chain triples =
     map (\<lambda>run. snd (snd (hd run)))
       (runs (\<lambda>f. fst (snd f)) (filter (\<lambda>f. fst f = chain) triples))"

subsection \<open>Renumbered records\<close>

text \<open>
  The numbering as the specification words it, on a sequence of record values: serial
  numbers counted up from \<open>s\<close>, and a residue number that goes up by one where the
  original residue number of a record differs from \<open>prev\<close>, the original residue number
  of the record before it.
\<close>

fun renumbered :: "'f atom list \<Rightarrow> int \<Rightarrow> int \<Rightarrow> int option \<Rightarrow> 'f atom list" where
  "renumbered [] s r prev = []"
| "renumbered (a # as) s r prev =
     a\<lparr>serial := s, resSeq := (if Some (resSeq a) \<noteq> prev then r + 1 else r)\<rparr>
       # renumbered as (s + 1) (if Some (resSeq a) \<noteq> prev then r + 1 else r) (Some (resSeq a))"

text \<open>Residue numbers that start at 1 and, from one record to the next, stay or go up by
  one: the numbers \<open>1..M\<close>, monotonic and grouped into runs.\<close>

definition grouped_from_one :: "int list \<Rightarrow> bool" where
  "grouped_from_one rs \<longleftrightarrow>
     rs \<noteq> [] \<and> hd rs = 1
     \<and> list_all (\<lambda>i. rs ! Suc i = rs ! i \<or> rs ! Suc i = rs ! i + 1) [0..<length rs - 1]"

subsection \<open>The text of a coordinate file\<close>

function chunks :: "nat \<Rightarrow> 'a list \<Rightarrow> 'a list list" where
  "chunks n xs = (if xs = [] \<or> n = 0 then [] else take n xs # chunks n (drop n xs))"
  by pat_completeness auto
termination
  by (relation "measure (\<lambda>(n, xs). length xs)") auto

declare chunks.simps [simp del]

text \<open>One line of values: every value in width 12 with 7 places, and a newline after the
  line only when it holds 6 values.\<close>

definition crd_line :: "'f pyfloat \<Rightarrow> 'f list \<Rightarrow> string" where
  "crd_line F vs = concat (map (fmt_f F 12 7) vs) @ (if length vs = 6 then [newline] else [])"

definition crd_text :: "'f pyfloat \<Rightarrow> string \<Rightarrow> nat \<Rightarrow> 'f list \<Rightarrow> string" where
  "crd_text F title natoms vs =
     title @ [newline] @ fmt_d 6 (int natoms) @ [newline] @ concat (map (crd_line F) (chunks 6 vs))"

text \<open>What a list argument of \<open>writeAmberCrd\<close> holds: nothing for \<open>None\<close>.\<close>

definition list_arg :: "'f heap \<Rightarrow> nat option \<Rightarrow> 'f list" where
  "list_arg h arg = (case arg of None \<Rightarrow> [] | Some r \<Rightarrow> h r)"

section \<open>Example inputs\<close>

text \<open>Two atoms of an alanine, with coordinates in thousandths.\<close>

definition example_atoms :: "int atom list" where
  "example_atoms =
     [\<lparr> serial = 1, name = '' N  '', altLoc = '' '', resName = ''ALA'', chainID = ''A'',
         resSeq = 1, iCode = '' '', pos_x = 11104, pos_y = 6134, pos_z = - 6504,
         occupancy = 1000, tempFactor = 0, segID = ''    '', element = '' N'', charge = ''  '' \<rparr>,
      \<lparr> serial = 2, name = '' CA '', altLoc = '' '', resName = ''ALA'', chainID = ''A'',
         resSeq = 1, iCode = '' '', pos_x = 11639, pos_y = 6071, pos_z = - 5147,
         occupancy = 1000, tempFactor = 250, segID = ''    '', element = '' C'', charge = ''  '' \<rparr>]"

text \<open>
  A store of atom dictionaries: the two atoms above at addresses 0 and 1, and at 2, 3 and
  4 three atoms with the serial numbers 7, 9, 4 and the residue numbers 5, 5, 8.
\<close>

definition example_objects :: "int objects" where
  "example_objects =
     (\<lambda>p. hd example_atoms)
       (0 := example_atoms ! 0, 1 := example_atoms ! 1,
        2 := (hd example_atoms)\<lparr>serial := 7, resSeq := 5\<rparr>,
        3 := (hd example_atoms)\<lparr>serial := 9, resSeq := 5\<rparr>,
        4 := (hd example_atoms)\<lparr>serial := 4, resSeq := 8\<rparr>)"

text \<open>A structure file: chain A with residue sequence numbers 1, 1, 2, 2, 3 and chain B
  with 1, 1, and two lines that are not atom records.\<close>

definition example_pdb_lines :: "string list" where
  "example_pdb_lines =
     [''ATOM      1  N   ALA A   1      11.104   6.134  -6.504  1.00  0.00           N  '',
      ''ATOM      2  CA  ALA A   1      11.639   6.071  -5.147  1.00  0.00           C  '',
      ''ATOM      3  N   GLY A   2      12.001   4.100  -3.250  1.00  0.00           N  '',
      ''ATOM      4  CA  GLY A   2      13.250   3.500  -2.750  1.00  0.00           C  '',
      ''ATOM      5  N   SER A   3      14.000   2.250  -1.500  1.00  0.00           N  '',
      ''TER'',
      ''ATOM      6  O   HOH B   1       1.000   2.000   3.000  1.00  0.00           O  '',
      ''ATOM      7  H1  HOH B   1       1.500   2.500   3.500  1.00  0.00           H  '',
      ''END'']"

definition example_pdb :: string where
  "example_pdb = concat (map (\<lambda>l. l @ [newline]) example_pdb_lines)"

text \<open>An atom line whose serial column is not a number (the overflow mark of a file with
  more than 99999 atoms), and an atom line that ends after the z column.\<close>

definition example_bad_line :: string where
  "example_bad_line = ''ATOM  *****  N   ALA A   1      11.104   6.134  -6.504  1.00  0.00           N  ''"

definition example_short_line :: string where
  "example_short_line = ''ATOM      1  N   ALA A   1      11.104   6.134  -6.504''"

text \<open>A structure file of three lines: a remark, the atom line that ends after the z
  column, and a complete atom line with occupancy 0.50 and temperature factor 12.30.\<close>

definition example_defaults_lines :: "string list" where
  "example_defaults_lines =
     [''REMARK'',
      example_short_line,
      ''ATOM      2  CA  ALA A   1      11.639   6.071  -5.147  0.50 12.30           C  '']"

definition example_defaults_pdb :: string where
  "example_defaults_pdb = concat (map (\<lambda>l. l @ [newline]) example_defaults_lines)"

text \<open>A store of lists, in thousandths: at address 0 the coordinates of one atom, at 1 box
  dimensions, at 2 box angles, at 3 a list of two values, which are not the coordinates
  of whole atoms.\<close>

definition example_heap :: "int heap" where
  "example_heap =
     (\<lambda>r. [])(0 := [1000, 2000, 3000], 1 := [30000, 30000, 30000],
              2 := [90000, 90000, 90000], 3 := [1000, 2000])"

text \<open>Coordinate files for one atom: with the three positions only (the text that
  \<open>writeAmberCrd\<close> writes for one atom and no box), with positions and box dimensions,
  and with two values only.\<close>

definition example_crd_positions :: string where
  "example_crd_positions =
     ''title'' @ [newline] @ ''     1'' @ [newline] @ ''   1.0000000   2.0000000   3.0000000''"

definition example_crd_dimensions :: string where
  "example_crd_dimensions =
     ''title'' @ [newline] @ ''     1'' @ [newline]
     @ ''   1.0000000   2.0000000   3.0000000  30.0000000  30.0000000  30.0000000'' @ [newline]"

definition example_crd_short :: string where
  "example_crd_short =
     ''title'' @ [newline] @ ''     1'' @ [newline] @ ''   1.0000000   2.0000000'' @ [newline]"

text \<open>Tools for the examples: one that exits with a status that depends on the command
  and touches no file, and a packing tool that leaves an output file and exits with
  status 1.\<close>

definition tool_exits :: "(command \<Rightarrow> int) \<Rightarrow> subprocess" where
  "tool_exits code cmd fs = (Inr (code cmd), fs)"

definition failing_packer :: shell_tool where
  "failing_packer cmd fs = ((1, ''ERROR''), fs(''/tmp/pack/output.pdb'' \<mapsto> example_short_line))"

definition empty_world :: world where
  "empty_world = \<lparr> files = Map.empty, invoked = [] \<rparr>"

text \<open>Exit statuses for a run in which only mdrun fails, and for one in which only the
  shell command, which is \<open>g_energy\<close>, fails.\<close>

definition only_mdrun_fails :: "command \<Rightarrow> int" where
  "only_mdrun_fails c =
     (case c of Argv args \<Rightarrow> (if take 1 args = [''/usr/bin/mdrun''] then 1 else 0) | Shell s \<Rightarrow> 0)"

definition only_shell_fails :: "command \<Rightarrow> int" where
  "only_shell_fails c = (case c of Argv args \<Rightarrow> 0 | Shell s \<Rightarrow> 1)"

section \<open>Lemmas on strings\<close>

lemma readlines_line:
  "list_all (\<lambda>c. c \<noteq> newline) l \<Longrightarrow> readlines (l @ newline # rest) = (l @ [newline]) # readlines rest"
  by (induction l) auto

lemma is_space_blank [simp]: "is_space CHR '' ''"
  by (simp add: is_space_def)

lemma is_space_newline [simp]: "is_space newline"
  by (simp add: is_space_def newline_def)

lemma dropWhile_id: "s \<noteq> [] \<Longrightarrow> \<not> P (hd s) \<Longrightarrow> dropWhile P s = s"
  by (cases s) auto

lemma strip_pad:
  assumes "t \<noteq> []" "\<not> is_space (hd t)" "\<not> is_space (last t)"
  shows "strip (replicate k CHR '' '' @ t) = t"
proof -
  have "dropWhile is_space (replicate k CHR '' '' @ t) = dropWhile is_space t"
    by (rule dropWhile_append2) auto
  also have "\<dots> = t"
    using assms by (simp add: dropWhile_id)
  finally have a: "dropWhile is_space (replicate k CHR '' '' @ t) = t" .
  have "dropWhile is_space (rev t) = rev t"
    using assms by (intro dropWhile_id) (auto simp: hd_rev)
  with a show ?thesis
    by (simp add: strip_def)
qed

lemma strip_rjust:
  assumes "t \<noteq> []" "\<not> is_space (hd t)" "\<not> is_space (last t)"
  shows "strip (rjust w t) = t"
  using assms by (simp add: rjust_def strip_pad)

lemma length_rjust: "length s \<le> w \<Longrightarrow> length (rjust w s) = w"
  by (simp add: rjust_def)

lemma length_rjust_fixed [simp]: "length s = w \<Longrightarrow> rjust w s = s"
  by (simp add: rjust_def)

section \<open>Lemmas on integers as text\<close>

lemma digit_cases: "d < 10 \<Longrightarrow> d \<in> {0, 1, 2, 3, 4, 5, 6, 7, 8, 9::nat}"
  by auto

lemma digit_char_digit: "d < 10 \<Longrightarrow> is_digit (digit_char d)"
  by (drule digit_cases) (auto simp: digit_char_def is_digit_def)

lemma digit_val_char: "d < 10 \<Longrightarrow> digit_val (digit_char d) = d"
  by (drule digit_cases) (auto simp: digit_char_def digit_val_def)

lemma show_nat_digits: "list_all is_digit (show_nat n)"
proof (induction n rule: show_nat.induct)
  case (1 n)
  show ?case
    using 1 by (subst show_nat.simps) (auto simp: digit_char_digit)
qed

lemma show_nat_nonempty: "show_nat n \<noteq> []"
  by (subst show_nat.simps) auto

lemma nat_of_digits_snoc: "nat_of_digits (s @ [c]) = 10 * nat_of_digits s + digit_val c"
  by (simp add: nat_of_digits_def)

lemma nat_of_digits_show: "nat_of_digits (show_nat n) = n"
proof (induction n rule: show_nat.induct)
  case (1 n)
  show ?case
  proof (cases "n < 10")
    case True
    then show ?thesis
      by (subst show_nat.simps) (simp add: nat_of_digits_def digit_val_char)
  next
    case False
    then have "nat_of_digits (show_nat (n div 10)) = n div 10"
      using 1 by simp
    with False show ?thesis
      by (subst show_nat.simps) (simp add: nat_of_digits_snoc digit_val_char)
  qed
qed

lemma length_show_nat: "0 < k \<Longrightarrow> n < 10 ^ k \<Longrightarrow> length (show_nat n) \<le> k"
proof (induction n arbitrary: k rule: show_nat.induct)
  case (1 n)
  show ?case
  proof (cases "n < 10")
    case True
    with 1(2) show ?thesis
      by (subst show_nat.simps) simp
  next
    case False
    with 1(3) have "1 < k"
      by (cases k; cases "k - 1") auto
    then obtain j where k: "k = Suc j" "0 < j"
      by (cases k) auto
    with 1(3) have "n div 10 < 10 ^ j"
      by (simp add: less_mult_imp_div_less mult.commute)
    with 1(1)[OF False k(2)] have "length (show_nat (n div 10)) \<le> j" .
    with False k show ?thesis
      by (subst show_nat.simps) simp
  qed
qed

lemma is_digit_not_space: "is_digit c \<Longrightarrow> \<not> is_space c"
  by (auto simp: is_digit_def is_space_def)

lemma is_digit_not_sign: "is_digit c \<Longrightarrow> c \<noteq> CHR ''-'' \<and> c \<noteq> CHR ''+''"
  by (auto simp: is_digit_def)

lemma is_digit_not_newline: "is_digit c \<Longrightarrow> c \<noteq> newline"
  by (auto simp: is_digit_def newline_def)

lemma digits_value_show: "digits_value (show_nat n) = Inr (int n)"
  by (simp add: digits_value_def show_nat_nonempty show_nat_digits nat_of_digits_show)

lemma show_nat_hd: "is_digit (hd (show_nat n))"
  using show_nat_digits[of n] show_nat_nonempty[of n]
  by (cases "show_nat n") auto

lemma show_nat_last: "is_digit (last (show_nat n))"
  using show_nat_digits[of n] show_nat_nonempty[of n]
  by (metis last_in_set list_all_iff)

lemma show_int_nonempty: "show_int n \<noteq> []"
  by (simp add: show_int_def show_nat_nonempty)

lemma show_int_hd: "\<not> is_space (hd (show_int n))"
proof (cases "n < 0")
  case True
  then show ?thesis by (simp add: show_int_def is_space_def)
next
  case False
  with is_digit_not_space[OF show_nat_hd[of "nat n"]] show ?thesis
    by (simp add: show_int_def)
qed

lemma show_int_last: "\<not> is_space (last (show_int n))"
  using show_nat_last[of "nat n"] show_nat_last[of "nat (- n)"]
  by (auto simp: show_int_def is_digit_not_space show_nat_nonempty)

lemma digits_no_newline: "list_all is_digit s \<Longrightarrow> list_all (\<lambda>c. c \<noteq> newline) s"
  by (auto simp: list_all_iff dest: is_digit_not_newline)

lemma show_int_no_newline: "list_all (\<lambda>c. c \<noteq> newline) (show_int n)"
  using digits_no_newline[OF show_nat_digits]
  by (simp add: show_int_def newline_def)

lemma py_int_show: "py_int (show_int n) = Inr n"
proof -
  have s: "strip (show_int n) = show_int n"
    using strip_pad[of "show_int n" 0] show_int_nonempty show_int_hd show_int_last by simp
  show ?thesis
  proof (cases "n < 0")
    case True
    then show ?thesis
      by (simp add: py_int_def s) (simp add: show_int_def digits_value_show bind_err_def)
  next
    case False
    obtain c cs where c: "show_nat (nat n) = c # cs"
      using show_nat_nonempty[of "nat n"] by (cases "show_nat (nat n)") auto
    with show_nat_hd[of "nat n"] have "c \<noteq> CHR ''-''" "c \<noteq> CHR ''+''"
      using is_digit_not_sign by auto
    with False c digits_value_show[of "nat n"] show ?thesis
      by (simp add: py_int_def s) (simp add: show_int_def)
  qed
qed

lemma py_int_fmt_d: "py_int (fmt_d w n) = Inr n"
proof -
  have "strip (fmt_d w n) = show_int n"
    unfolding fmt_d_def by (rule strip_rjust) (simp_all add: show_int_nonempty show_int_hd show_int_last)
  moreover have "strip (show_int n) = show_int n"
    using strip_pad[of "show_int n" 0] show_int_nonempty show_int_hd show_int_last by simp
  ultimately show ?thesis
    using py_int_show[of n] by (simp add: py_int_def)
qed

lemma length_show_int:
  assumes "0 < k" "- (10 ^ k) < n" "n < 10 ^ Suc k"
  shows "length (show_int n) \<le> Suc k"
proof (cases "n < 0")
  case True
  with assms have "nat (- n) < 10 ^ k"
    by (simp add: nat_less_iff)
  with assms(1) have "length (show_nat (nat (- n))) \<le> k"
    by (rule length_show_nat)
  with True show ?thesis by (simp add: show_int_def)
next
  case False
  with assms have "nat n < 10 ^ Suc k"
    by (simp add: nat_less_iff)
  then have "length (show_nat (nat n)) \<le> Suc k"
    by (intro length_show_nat) auto
  with False show ?thesis by (simp add: show_int_def)
qed

lemma length_fmt_d_5: "- 9999 \<le> n \<Longrightarrow> n \<le> 99999 \<Longrightarrow> length (fmt_d 5 n) = 5"
  using length_show_int[of 4 n] by (simp add: fmt_d_def length_rjust)

lemma length_fmt_d_4: "- 999 \<le> n \<Longrightarrow> n \<le> 9999 \<Longrightarrow> length (fmt_d 4 n) = 4"
  using length_show_int[of 3 n] by (simp add: fmt_d_def length_rjust)

lemma list_all_replicate: "P x \<Longrightarrow> list_all P (replicate k x)"
  by (induction k) auto

lemma blank_not_newline: "CHR '' '' \<noteq> newline"
  by (simp add: newline_def)

lemma rjust_no_newline:
  "list_all (\<lambda>c. c \<noteq> newline) s \<Longrightarrow> list_all (\<lambda>c. c \<noteq> newline) (rjust w s)"
  by (simp add: rjust_def list_all_replicate blank_not_newline)

lemma fmt_d_no_newline: "list_all (\<lambda>c. c \<noteq> newline) (fmt_d w n)"
  unfolding fmt_d_def by (rule rjust_no_newline) (rule show_int_no_newline)

lemma blank_not_numeric_int: "blank s \<Longrightarrow> \<not> numeric_int s"
  by (simp add: blank_def numeric_int_def py_int_def)

lemma blank_not_numeric_float: "blank s \<Longrightarrow> \<not> numeric_float F s"
  by (simp add: blank_def numeric_float_def py_float_def)

section \<open>Lemmas on floats as text\<close>

lemma py_float_fmt_f:
  assumes "representable_float F w p v"
  shows "py_float F (fmt_f F w p v) = Inr v"
proof -
  let ?t = "float_repr F p v"
  from assms have t: "?t \<noteq> []" "list_all (\<lambda>c. \<not> is_space c) ?t" "float_parse F ?t = Some v"
    by (simp_all add: representable_float_def)
  then have "\<not> is_space (hd ?t)" "\<not> is_space (last ?t)"
    by (auto simp: list_all_iff)
  with t(1) have "strip (fmt_f F w p v) = ?t"
    unfolding fmt_f_def by (intro strip_rjust)
  with t show ?thesis
    by (simp add: py_float_def)
qed

lemma fmt_f_not_blank:
  assumes "representable_float F w p v"
  shows "strip (fmt_f F w p v) \<noteq> []"
proof -
  let ?t = "float_repr F p v"
  from assms have t: "?t \<noteq> []" "list_all (\<lambda>c. \<not> is_space c) ?t"
    by (simp_all add: representable_float_def)
  then have "\<not> is_space (hd ?t)" "\<not> is_space (last ?t)"
    by (auto simp: list_all_iff)
  with t(1) have "strip (fmt_f F w p v) = ?t"
    unfolding fmt_f_def by (intro strip_rjust)
  with t show ?thesis by simp
qed

lemma length_fmt_f: "representable_float F w p v \<Longrightarrow> length (fmt_f F w p v) = w"
  by (simp add: representable_float_def fmt_f_def length_rjust)

lemma no_space_no_newline:
  "list_all (\<lambda>c. \<not> is_space c) s \<Longrightarrow> list_all (\<lambda>c. c \<noteq> newline) s"
  by (auto simp: list_all_iff)

lemma fmt_f_no_newline:
  "representable_float F w p v \<Longrightarrow> list_all (\<lambda>c. c \<noteq> newline) (fmt_f F w p v)"
  unfolding fmt_f_def
  by (rule rjust_no_newline) (simp add: representable_float_def no_space_no_newline)

section \<open>The round trip of atom records\<close>

lemma atom_line_layout:
  fixes rest :: string
  assumes "length c1 = 5" "length c3 = 4" "length c4 = 1" "length c5 = 3" "length c7 = 1"
    "length c8 = 4" "length c9 = 1" "length cx = 8" "length cy = 8" "length cz = 8"
    "length co = 6" "length ct = 6"
  defines "line \<equiv> ''ATOM  '' @ c1 @ '' '' @ c3 @ c4 @ c5 @ '' '' @ c7 @ c8 @ c9 @ ''   ''
                    @ cx @ cy @ cz @ co @ ct @ rest"
  shows "substr 0 6 line = ''ATOM  ''" "substr 6 11 line = c1" "substr 12 16 line = c3"
    "substr 16 17 line = c4" "substr 17 20 line = c5" "substr 21 22 line = c7"
    "substr 22 26 line = c8" "substr 26 27 line = c9" "substr 30 38 line = cx"
    "substr 38 46 line = cy" "substr 46 54 line = cz" "substr 54 60 line = co"
    "substr 60 66 line = ct"
  using assms(1-12) unfolding line_def substr_def by simp_all

lemma fixed_text_length: "fixed_text w s \<Longrightarrow> length s = w"
  by (simp add: fixed_text_def)

lemma fixed_text_no_newline: "fixed_text w s \<Longrightarrow> list_all (\<lambda>c. c \<noteq> newline) s"
  by (simp add: fixed_text_def)

lemma format_atom_representable:
  assumes "representable F a"
  shows "format_atom F a =
     Inr (''ATOM  '' @ fmt_d 5 (serial a) @ '' '' @ name a @ altLoc a @ resName a @ '' ''
          @ chainID a @ fmt_d 4 (resSeq a) @ iCode a @ ''   ''
          @ fmt_f F 8 3 (pos_x a) @ fmt_f F 8 3 (pos_y a) @ fmt_f F 8 3 (pos_z a)
          @ fmt_f F 6 2 (occupancy a) @ fmt_f F 6 2 (tempFactor a)
          @ fmt_s 2 (element a) @ fmt_s 2 (charge a) @ [newline])"
  using assms
  by (simp add: representable_def format_atom_def fmt_c_def fmt_s_def bind_err_def fixed_text_def)

lemma parse_atom_line:
  assumes "representable F a"
  shows "\<exists>a'. parse_atom F (projr (format_atom F a)) = Inr a' \<and> core a' = core a"
proof -
  from assms have len:
    "length (fmt_d 5 (serial a)) = 5" "length (name a) = 4" "length (altLoc a) = 1"
    "length (resName a) = 3" "length (chainID a) = 1" "length (fmt_d 4 (resSeq a)) = 4"
    "length (iCode a) = 1" "length (fmt_f F 8 3 (pos_x a)) = 8"
    "length (fmt_f F 8 3 (pos_y a)) = 8" "length (fmt_f F 8 3 (pos_z a)) = 8"
    "length (fmt_f F 6 2 (occupancy a)) = 6" "length (fmt_f F 6 2 (tempFactor a)) = 6"
    by (simp_all add: representable_def length_fmt_d_5 length_fmt_d_4 length_fmt_f
        fixed_text_length)
  note lay = atom_line_layout[OF len,
      where rest = "fmt_s 2 (element a) @ fmt_s 2 (charge a) @ [newline]"]
  from assms have fl:
    "py_float F (fmt_f F 8 3 (pos_x a)) = Inr (pos_x a)"
    "py_float F (fmt_f F 8 3 (pos_y a)) = Inr (pos_y a)"
    "py_float F (fmt_f F 8 3 (pos_z a)) = Inr (pos_z a)"
    "py_float F (fmt_f F 6 2 (occupancy a)) = Inr (occupancy a)"
    "py_float F (fmt_f F 6 2 (tempFactor a)) = Inr (tempFactor a)"
    "strip (fmt_f F 6 2 (occupancy a)) \<noteq> []"
    "strip (fmt_f F 6 2 (tempFactor a)) \<noteq> []"
    by (simp_all add: representable_def py_float_fmt_f fmt_f_not_blank)
  define line where "line = projr (format_atom F a)"
  have lay': "substr 6 11 line = fmt_d 5 (serial a)" "substr 12 16 line = name a"
    "substr 16 17 line = altLoc a" "substr 17 20 line = resName a"
    "substr 21 22 line = chainID a" "substr 22 26 line = fmt_d 4 (resSeq a)"
    "substr 26 27 line = iCode a" "substr 30 38 line = fmt_f F 8 3 (pos_x a)"
    "substr 38 46 line = fmt_f F 8 3 (pos_y a)" "substr 46 54 line = fmt_f F 8 3 (pos_z a)"
    "substr 54 60 line = fmt_f F 6 2 (occupancy a)"
    "substr 60 66 line = fmt_f F 6 2 (tempFactor a)"
    unfolding line_def format_atom_representable[OF assms] sum.sel by (rule lay)+
  show ?thesis
    unfolding line_def[symmetric]
    by (simp add: parse_atom_def lay' bind_err_def py_int_fmt_d fl core_def)
qed

lemma atom_line_is_atom_line:
  assumes "representable F a"
  shows "is_atom_line (projr (format_atom F a))"
  unfolding format_atom_representable[OF assms] sum.sel
  by (simp add: is_atom_line_def substr_def)

lemma atom_line_newline:
  assumes "representable F a"
  shows "\<exists>body. projr (format_atom F a) = body @ [newline] \<and> list_all (\<lambda>c. c \<noteq> newline) body"
proof -
  from assms have
    "list_all (\<lambda>c. c \<noteq> newline) (name a)" "list_all (\<lambda>c. c \<noteq> newline) (altLoc a)"
    "list_all (\<lambda>c. c \<noteq> newline) (resName a)" "list_all (\<lambda>c. c \<noteq> newline) (chainID a)"
    "list_all (\<lambda>c. c \<noteq> newline) (iCode a)"
    "list_all (\<lambda>c. c \<noteq> newline) (fmt_f F 8 3 (pos_x a))"
    "list_all (\<lambda>c. c \<noteq> newline) (fmt_f F 8 3 (pos_y a))"
    "list_all (\<lambda>c. c \<noteq> newline) (fmt_f F 8 3 (pos_z a))"
    "list_all (\<lambda>c. c \<noteq> newline) (fmt_f F 6 2 (occupancy a))"
    "list_all (\<lambda>c. c \<noteq> newline) (fmt_f F 6 2 (tempFactor a))"
    "list_all (\<lambda>c. c \<noteq> newline) (fmt_s 2 (element a))"
    "list_all (\<lambda>c. c \<noteq> newline) (fmt_s 2 (charge a))"
    by (simp_all add: representable_def fixed_text_def fmt_f_no_newline fmt_s_def
        rjust_no_newline)
  then have "list_all (\<lambda>c. c \<noteq> newline)
      (''ATOM  '' @ fmt_d 5 (serial a) @ '' '' @ name a @ altLoc a @ resName a @ '' ''
          @ chainID a @ fmt_d 4 (resSeq a) @ iCode a @ ''   ''
          @ fmt_f F 8 3 (pos_x a) @ fmt_f F 8 3 (pos_y a) @ fmt_f F 8 3 (pos_z a)
          @ fmt_f F 6 2 (occupancy a) @ fmt_f F 6 2 (tempFactor a)
          @ fmt_s 2 (element a) @ fmt_s 2 (charge a))"
    by (simp add: fmt_d_no_newline) (simp add: newline_def)
  then show ?thesis
    unfolding format_atom_representable[OF assms] sum.sel
    by (intro exI[of _ "''ATOM  '' @ fmt_d 5 (serial a) @ '' '' @ name a @ altLoc a @ resName a @ '' ''
          @ chainID a @ fmt_d 4 (resSeq a) @ iCode a @ ''   ''
          @ fmt_f F 8 3 (pos_x a) @ fmt_f F 8 3 (pos_y a) @ fmt_f F 8 3 (pos_z a)
          @ fmt_f F 6 2 (occupancy a) @ fmt_f F 6 2 (tempFactor a)
          @ fmt_s 2 (element a) @ fmt_s 2 (charge a)"]) simp
qed

lemma write_atoms_representable:
  "list_all (representable F) atoms \<Longrightarrow>
     write_atoms F atoms out = (Inr (), out @ concat (map (\<lambda>a. projr (format_atom F a)) atoms))"
proof (induction atoms arbitrary: out)
  case Nil
  then show ?case by simp
next
  case (Cons a atoms)
  then have "representable F a" by simp
  from format_atom_representable[OF this] Cons show ?case
    by simp
qed

lemma readlines_concat:
  "list_all (\<lambda>l. \<exists>body. l = body @ [newline] \<and> list_all (\<lambda>c. c \<noteq> newline) body) ls \<Longrightarrow>
     readlines (concat ls) = ls"
proof (induction ls)
  case Nil
  then show ?case by simp
next
  case (Cons l ls)
  then obtain body where b: "l = body @ [newline]" "list_all (\<lambda>c. c \<noteq> newline) body"
    by auto
  from Cons have "readlines (concat ls) = ls" by simp
  with readlines_line[OF b(2), of "concat ls"] b(1) show ?case
    by simp
qed

lemma readAtoms_loop_lines:
  "list_all (representable F) atoms \<Longrightarrow>
     \<exists>atoms'. readAtoms_loop F (map (\<lambda>a. projr (format_atom F a)) atoms) acc = Inr (acc @ atoms')
              \<and> map core atoms' = map core atoms"
proof (induction atoms arbitrary: acc)
  case Nil
  then show ?case by simp
next
  case (Cons a atoms)
  then have r: "representable F a" by simp
  from parse_atom_line[OF r] obtain a' where
    a': "parse_atom F (projr (format_atom F a)) = Inr a'" "core a' = core a"
    by blast
  from Cons.prems have "list_all (representable F) atoms" by simp
  from Cons.IH[OF this, of "acc @ [a']"] obtain atoms' where
    "readAtoms_loop F (map (\<lambda>a. projr (format_atom F a)) atoms) (acc @ [a']) = Inr ((acc @ [a']) @ atoms')"
    "map core atoms' = map core atoms"
    by blast
  with a' atom_line_is_atom_line[OF r] show ?case
    by (intro exI[of _ "a' # atoms'"]) simp
qed

section \<open>Evaluation of the fixed-point floats\<close>

lemma replicate_numeral: "replicate (numeral k) x = x # replicate (pred_numeral k) x"
  by (simp add: numeral_eq_Suc)

text \<open>The digits of a numeral: the defining equation of \<open>show_nat\<close>, only at literals.\<close>

lemma show_nat_eval:
  "show_nat 0 = ''0''"
  "show_nat 1 = ''1''"
  "show_nat (Suc 0) = ''1''"
  "show_nat (numeral k) =
     (if numeral k < (10::nat) then [digit_char (numeral k)]
      else show_nat (numeral k div 10) @ [digit_char (numeral k mod 10)])"
  by (subst show_nat.simps, simp add: digit_char_def)+

lemmas fixed_eval =
  fixed_floats_def fixed_repr_def fixed_parse_def round_div_def zero_pad_def show_nat_eval
  digit_char_def is_digit_def is_space_def nat_of_digits_def digit_val_def Let_def
  replicate_numeral

lemma representable_float_fixed_examples:
  "representable_float (fixed_floats 3) 8 3 11104"
  "representable_float (fixed_floats 3) 8 3 6134"
  "representable_float (fixed_floats 3) 8 3 (- 6504)"
  "representable_float (fixed_floats 3) 8 3 11639"
  "representable_float (fixed_floats 3) 8 3 6071"
  "representable_float (fixed_floats 3) 8 3 (- 5147)"
  "representable_float (fixed_floats 3) 6 2 1000"
  "representable_float (fixed_floats 3) 6 2 0"
  "representable_float (fixed_floats 3) 6 2 250"
  by (simp_all add: representable_float_def fixed_eval)

lemma example_atoms_representable: "list_all (representable (fixed_floats 3)) example_atoms"
  by (simp add: example_atoms_def representable_def fixed_text_def newline_def
      representable_float_fixed_examples)

section \<open>C1: writing atom records and reading them back\<close>

text \<open>
  Claim C1. For every sequence of atom records with representable field values (the
  records that the list \<open>atoms\<close> refers to, in the order of the list), writing
  it with \<open>writeAtomsToPDB\<close> (without renumbering) succeeds, and reading the written file
  with \<open>readAtomsFromPDB\<close> yields records with the same (serial, name, altLoc, resName,
  chainID, resSeq, iCode, x, y, z, occupancy, tempFactor) tuples, in the same order. The
  defaulting of blank occupancy and temperature-factor columns never applies to a written
  file, since both columns are always printed.
\<close>

theorem pdb_roundtrip:
  assumes "list_all (representable F) (map objs atoms)"
  shows "fst (writeAtomsToPDB F fs pdbfilename atoms False objs) = Inr ()
    \<and> (\<exists>atoms'. readAtomsFromPDB F (snd (snd (writeAtomsToPDB F fs pdbfilename atoms False objs)))
                    pdbfilename = Inr atoms'
               \<and> map core atoms' = map core (map objs atoms))"
proof -
  let ?lines = "map (\<lambda>a. projr (format_atom F a)) (map objs atoms)"
  have w: "writeAtomsToPDB F fs pdbfilename atoms False objs
             = (Inr (), objs, fs(pdbfilename \<mapsto> concat ?lines))"
    using write_atoms_representable[OF assms, of "[]"] by (simp add: writeAtomsToPDB_def)
  have "list_all (\<lambda>l. \<exists>body. l = body @ [newline] \<and> list_all (\<lambda>c. c \<noteq> newline) body) ?lines"
    using assms atom_line_newline by (auto simp: list_all_iff)
  then have "readlines (concat ?lines) = ?lines"
    by (rule readlines_concat)
  with readAtoms_loop_lines[OF assms, of "[]"] w show ?thesis
    by (simp add: readAtomsFromPDB_def)
qed

lemma example_objects_atoms: "map example_objects [0, 1] = example_atoms"
  by (simp add: example_objects_def example_atoms_def)

theorem pdb_roundtrip_witness:
  "list_all (representable (fixed_floats 3)) (map example_objects [0, 1])
   \<and> fst (writeAtomsToPDB (fixed_floats 3) Map.empty ''out.pdb'' [0, 1] False example_objects)
       = Inr ()
   \<and> (\<exists>atoms'. readAtomsFromPDB (fixed_floats 3)
                   (snd (snd (writeAtomsToPDB (fixed_floats 3) Map.empty ''out.pdb''
                                 [0, 1] False example_objects))) ''out.pdb'' = Inr atoms'
                \<and> map core atoms' = map core (map example_objects [0, 1]))"
proof -
  have r: "list_all (representable (fixed_floats 3)) (map example_objects [0, 1])"
    unfolding example_objects_atoms by (rule example_atoms_representable)
  from r pdb_roundtrip[OF r] show ?thesis
    by blast
qed

section \<open>C6: the renumbering pass\<close>

lemma renumbered_Cons:
  "renumbered (a # as) s r lst =
     a\<lparr>serial := s, resSeq := (if Some (resSeq a) \<noteq> lst then r + 1 else r)\<rparr>
       # renumbered as (s + 1) (if Some (resSeq a) \<noteq> lst then r + 1 else r) (Some (resSeq a))"
  by simp

lemma length_renumbered: "length (renumbered as s r lst) = length as"
  by (induction as arbitrary: s r lst) auto

lemma renumbered_serial:
  "i < length as \<Longrightarrow> serial (renumbered as s r lst ! i) = s + int i"
proof (induction as arbitrary: i s r lst)
  case Nil
  then show ?case by simp
next
  case (Cons a as)
  show ?case
  proof (cases i)
    case 0
    then show ?thesis by (simp only: renumbered_Cons) simp
  next
    case (Suc j)
    with Cons.prems have "j < length as" by simp
    from Cons.IH[OF this] Suc show ?thesis
      by (simp only: renumbered_Cons) simp
  qed
qed

lemma renumbered_first:
  "as \<noteq> [] \<Longrightarrow>
     resSeq (renumbered as s r lst ! 0) = (if Some (resSeq (as ! 0)) \<noteq> lst then r + 1 else r)"
  by (cases as) auto

lemma renumbered_step:
  "Suc i < length as \<Longrightarrow>
     resSeq (renumbered as s r lst ! Suc i)
       = resSeq (renumbered as s r lst ! i)
         + (if resSeq (as ! Suc i) \<noteq> resSeq (as ! i) then 1 else 0)"
proof (induction as arbitrary: i s r lst)
  case Nil
  then show ?case by simp
next
  case (Cons a as)
  show ?case
  proof (cases i)
    case 0
    with Cons.prems have "as \<noteq> []" by auto
    from renumbered_first[OF this] 0 show ?thesis
      by (simp only: renumbered_Cons) simp
  next
    case (Suc j)
    with Cons.prems have "Suc j < length as" by simp
    from Cons.IH[OF this] Suc show ?thesis
      by (simp only: renumbered_Cons) simp
  qed
qed

lemma renumbered_others:
  "i < length as \<Longrightarrow>
     renumbered as s r lst ! i
       = (as ! i)\<lparr>serial := serial (renumbered as s r lst ! i),
                  resSeq := resSeq (renumbered as s r lst ! i)\<rparr>"
proof (induction as arbitrary: i s r lst)
  case Nil
  then show ?case by simp
next
  case (Cons a as)
  show ?case
  proof (cases i)
    case 0
    then show ?thesis by (simp only: renumbered_Cons) simp
  next
    case (Suc j)
    with Cons.prems have "j < length as" by simp
    from Cons.IH[OF this] Suc show ?thesis
      by (simp only: renumbered_Cons) simp
  qed
qed

lemma renumbered_noop:
  assumes "\<forall>i<length as. serial (as ! i) = s + int i"
    and "as \<noteq> [] \<longrightarrow> resSeq (as ! 0) = (if Some (resSeq (as ! 0)) \<noteq> lst then r + 1 else r)"
    and "\<forall>i. Suc i < length as \<longrightarrow>
           resSeq (as ! Suc i) = resSeq (as ! i) \<or> resSeq (as ! Suc i) = resSeq (as ! i) + 1"
  shows "renumbered as s r lst = as"
  using assms
proof (induction as arbitrary: s r lst)
  case Nil
  then show ?case by simp
next
  case (Cons a as)
  from Cons.prems(1) have sa: "serial a = s" by auto
  from Cons.prems(2) have ra: "resSeq a = (if Some (resSeq a) \<noteq> lst then r + 1 else r)"
    by simp
  have 1: "\<forall>i<length as. serial (as ! i) = (s + 1) + int i"
  proof (intro allI impI)
    fix i assume "i < length as"
    with Cons.prems(1) have "serial ((a # as) ! Suc i) = s + int (Suc i)" by auto
    then show "serial (as ! i) = (s + 1) + int i" by simp
  qed
  have 2: "as \<noteq> [] \<longrightarrow> resSeq (as ! 0) =
             (if Some (resSeq (as ! 0)) \<noteq> Some (resSeq a) then resSeq a + 1 else resSeq a)"
  proof
    assume "as \<noteq> []"
    then have "Suc 0 < length (a # as)" by (cases as) auto
    with Cons.prems(3) have "resSeq ((a # as) ! Suc 0) = resSeq ((a # as) ! 0)
        \<or> resSeq ((a # as) ! Suc 0) = resSeq ((a # as) ! 0) + 1"
      by blast
    then show "resSeq (as ! 0) =
        (if Some (resSeq (as ! 0)) \<noteq> Some (resSeq a) then resSeq a + 1 else resSeq a)"
      by auto
  qed
  have 3: "\<forall>i. Suc i < length as \<longrightarrow>
             resSeq (as ! Suc i) = resSeq (as ! i) \<or> resSeq (as ! Suc i) = resSeq (as ! i) + 1"
  proof (intro allI impI)
    fix i assume "Suc i < length as"
    then have "Suc (Suc i) < length (a # as)" by simp
    with Cons.prems(3) have "resSeq ((a # as) ! Suc (Suc i)) = resSeq ((a # as) ! Suc i)
        \<or> resSeq ((a # as) ! Suc (Suc i)) = resSeq ((a # as) ! Suc i) + 1"
      by blast
    then show "resSeq (as ! Suc i) = resSeq (as ! i) \<or> resSeq (as ! Suc i) = resSeq (as ! i) + 1"
      by simp
  qed
  have tail: "renumbered as (s + 1) (resSeq a) (Some (resSeq a)) = as"
    by (rule Cons.IH[OF 1 2 3])
  have "a\<lparr>serial := s, resSeq := resSeq a\<rparr> = a"
    using sa by simp
  with tail ra show ?case
    by (simp only: renumbered_Cons)
qed

lemma grouped_from_one_nth:
  assumes "grouped_from_one (map resSeq atoms)"
  shows "resSeq (atoms ! 0) = 1"
    and "\<forall>i. Suc i < length atoms \<longrightarrow>
           resSeq (atoms ! Suc i) = resSeq (atoms ! i) \<or> resSeq (atoms ! Suc i) = resSeq (atoms ! i) + 1"
proof -
  from assms have ne: "atoms \<noteq> []" and h: "hd (map resSeq atoms) = 1"
    and st: "list_all (\<lambda>i. map resSeq atoms ! Suc i = map resSeq atoms ! i
                     \<or> map resSeq atoms ! Suc i = map resSeq atoms ! i + 1) [0..<length atoms - 1]"
    by (simp_all add: grouped_from_one_def)
  from ne h show "resSeq (atoms ! 0) = 1"
    by (cases atoms) auto
  show "\<forall>i. Suc i < length atoms \<longrightarrow>
           resSeq (atoms ! Suc i) = resSeq (atoms ! i) \<or> resSeq (atoms ! Suc i) = resSeq (atoms ! i) + 1"
  proof (intro allI impI)
    fix i assume i: "Suc i < length atoms"
    then have "i \<in> set [0..<length atoms - 1]" by auto
    with st have "map resSeq atoms ! Suc i = map resSeq atoms ! i
                     \<or> map resSeq atoms ! Suc i = map resSeq atoms ! i + 1"
      by (simp add: list_all_iff)
    with i show "resSeq (atoms ! Suc i) = resSeq (atoms ! i) \<or> resSeq (atoms ! Suc i) = resSeq (atoms ! i) + 1"
      by simp
  qed
qed


subsection \<open>The loop on the store\<close>

lemma renumber_loop_Cons:
  "renumber_loop (p # ps) s r lst objs =
     renumber_loop ps (s + 1) (if Some (resSeq (objs p)) \<noteq> lst then r + 1 else r)
       (if Some (resSeq (objs p)) \<noteq> lst then Some (resSeq (objs p)) else lst)
       (objs(p := (objs p)\<lparr>serial := s,
                            resSeq := (if Some (resSeq (objs p)) \<noteq> lst then r + 1 else r)\<rparr>))"
  by (simp add: Let_def)

lemma renumber_loop_outside:
  "p \<notin> set ps \<Longrightarrow> renumber_loop ps s r lst objs p = objs p"
proof (induction ps arbitrary: s r lst objs)
  case Nil
  then show ?case by simp
next
  case (Cons q ps)
  then have "p \<noteq> q" "p \<notin> set ps" by auto
  with Cons.IH show ?case
    by (simp only: renumber_loop_Cons) simp
qed

text \<open>On a list of distinct dictionaries the loop numbers the records as the
  specification words it.\<close>

lemma renumber_loop_distinct:
  "distinct ps \<Longrightarrow>
     map (renumber_loop ps s r lst objs) ps = renumbered (map objs ps) s r lst"
proof (induction ps arbitrary: s r lst objs)
  case Nil
  then show ?case by simp
next
  case (Cons p ps)
  then have np: "p \<notin> set ps" and d: "distinct ps" by auto
  let ?r = "if Some (resSeq (objs p)) \<noteq> lst then r + 1 else r"
  let ?l = "if Some (resSeq (objs p)) \<noteq> lst then Some (resSeq (objs p)) else lst"
  let ?o = "objs(p := (objs p)\<lparr>serial := s, resSeq := ?r\<rparr>)"
  have l: "?l = Some (resSeq (objs p))" by simp
  have hd: "renumber_loop ps (s + 1) ?r ?l ?o p = (objs p)\<lparr>serial := s, resSeq := ?r\<rparr>"
    by (simp only: renumber_loop_outside[OF np] fun_upd_same)
  have "map ?o ps = map objs ps"
    using np by (induction ps) auto
  with Cons.IH[OF d, of "s + 1" ?r ?l ?o]
  have tl: "map (renumber_loop ps (s + 1) ?r ?l ?o) ps
              = renumbered (map objs ps) (s + 1) ?r (Some (resSeq (objs p)))"
    by (simp only: l)
  show ?case
    unfolding renumber_loop_Cons list.map renumbered_Cons
    using hd tl by simp
qed

lemma serials_distinct:
  assumes "map serial (map objs ps) = map int [1..<Suc (length ps)]"
  shows "distinct ps"
proof -
  have "distinct (map int [1..<Suc (length ps)])"
    by (simp add: distinct_map inj_on_def del: upt_Suc)
  with assms have "distinct (map (\<lambda>p. serial (objs p)) ps)"
    by (simp add: comp_def del: upt_Suc)
  then show ?thesis
    by (simp add: distinct_map)
qed

text \<open>Every sequence of record values is the content of a list of distinct
  dictionaries.\<close>

lemma records_in_distinct_dictionaries:
  "distinct [0..<length as] \<and> map (\<lambda>p. as ! p) [0..<length as] = as"
  by (simp add: map_nth)

text \<open>A list that holds one dictionary twice: the second pass reads the residue number
  that the first pass assigned, so the dictionary ends with serial number 2 and residue
  number 2, and both positions of the list show it.\<close>

lemma renumber_shared_dictionary:
  "renumber_atoms [2, 2] example_objects
     = Inr (example_objects(2 := (example_objects 2)\<lparr>serial := 2, resSeq := 2\<rparr>))"
  by (simp add: renumber_atoms_def example_objects_def Let_def)

text \<open>
  Claim C6. For a non-empty sequence of records, the renumbering pass of
  \<open>writeAtomsToPDB\<close> (\<open>renumber = True\<close>) succeeds and changes only dictionaries of the
  list. When the serial numbers are already \<open>1..N\<close> and the residue sequence numbers are
  already \<open>1..M\<close>, monotonic and grouped, the pass changes nothing. In general, for a
  sequence of separate records (no dictionary twice in the list, which is how
  \<open>readAtomsFromPDB\<close> builds the list: one new dictionary per atom line), the pass leaves
  the records with the serial numbers \<open>1..N\<close> in sequence order, residue sequence numbers
  that start at 1 and go up by one exactly where the original residue sequence number
  of a record differs from that of the record before it, and every other field as it
  was.
\<close>

theorem renumber_pass:
  assumes "atoms \<noteq> []"
  shows "\<exists>objs'. renumber_atoms atoms objs = Inr objs'
     \<and> fst (snd (writeAtomsToPDB F fs pdbfilename atoms True objs)) = objs'
     \<and> (\<forall>p. p \<notin> set atoms \<longrightarrow> objs' p = objs p)
     \<and> (map serial (map objs atoms) = map int [1..<Suc (length atoms)]
          \<and> grouped_from_one (map resSeq (map objs atoms)) \<longrightarrow> objs' = objs)
     \<and> (distinct atoms \<longrightarrow>
          (\<forall>i<length atoms. serial (objs' (atoms ! i)) = int i + 1)
          \<and> resSeq (objs' (atoms ! 0)) = 1
          \<and> (\<forall>i. Suc i < length atoms \<longrightarrow>
                resSeq (objs' (atoms ! Suc i))
                  = resSeq (objs' (atoms ! i))
                    + (if resSeq (objs (atoms ! Suc i)) \<noteq> resSeq (objs (atoms ! i)) then 1 else 0))
          \<and> (\<forall>i<length atoms.
                objs' (atoms ! i)
                  = (objs (atoms ! i))\<lparr>serial := serial (objs' (atoms ! i)),
                                          resSeq := resSeq (objs' (atoms ! i))\<rparr>))"
proof -
  let ?o = "renumber_loop atoms 1 0 None objs"
  let ?as = "map objs atoms"
  let ?r = "renumbered ?as 1 0 None"
  have ne: "?as \<noteq> []"
    using assms by simp
  have a: "renumber_atoms atoms objs = Inr ?o"
    using assms by (simp add: renumber_atoms_def)
  have b: "fst (snd (writeAtomsToPDB F fs pdbfilename atoms True objs)) = ?o"
    by (simp add: writeAtomsToPDB_def a split: prod.splits)
  have out: "\<forall>p. p \<notin> set atoms \<longrightarrow> ?o p = objs p"
    by (simp add: renumber_loop_outside)
  have nth: "?o (atoms ! i) = ?r ! i" if d: "distinct atoms" and i: "i < length atoms" for i
  proof -
    have "?o (atoms ! i) = map ?o atoms ! i"
      using i by simp
    also have "\<dots> = ?r ! i"
      by (simp only: renumber_loop_distinct[OF d])
    finally show ?thesis .
  qed
  have c: "\<forall>i<length atoms. serial (?o (atoms ! i)) = int i + 1" if d: "distinct atoms"
    using nth[OF d] renumbered_serial[of _ ?as 1 0 None] by simp
  have d1: "resSeq (?o (atoms ! 0)) = 1" if d: "distinct atoms"
    using nth[OF d, of 0] assms renumbered_first[OF ne, of 1 0 None] by simp
  have e: "\<forall>i. Suc i < length atoms \<longrightarrow>
           resSeq (?o (atoms ! Suc i))
             = resSeq (?o (atoms ! i))
               + (if resSeq (objs (atoms ! Suc i)) \<noteq> resSeq (objs (atoms ! i)) then 1 else 0)"
    if d: "distinct atoms"
  proof (intro allI impI)
    fix i assume i: "Suc i < length atoms"
    then have "Suc i < length ?as" by simp
    from renumbered_step[OF this, of 1 0 None] nth[OF d, of i] nth[OF d, of "Suc i"] i
    show "resSeq (?o (atoms ! Suc i))
             = resSeq (?o (atoms ! i))
               + (if resSeq (objs (atoms ! Suc i)) \<noteq> resSeq (objs (atoms ! i)) then 1 else 0)"
      by simp
  qed
  have f: "\<forall>i<length atoms.
           ?o (atoms ! i) = (objs (atoms ! i))\<lparr>serial := serial (?o (atoms ! i)),
                                                resSeq := resSeq (?o (atoms ! i))\<rparr>"
    if d: "distinct atoms"
  proof (intro allI impI)
    fix i assume i: "i < length atoms"
    then have "i < length ?as" by simp
    from renumbered_others[OF this, of 1 0 None] nth[OF d i] i
    show "?o (atoms ! i) = (objs (atoms ! i))\<lparr>serial := serial (?o (atoms ! i)),
                                                 resSeq := resSeq (?o (atoms ! i))\<rparr>"
      by simp
  qed
  have g: "?o = objs"
    if s: "map serial ?as = map int [1..<Suc (length atoms)]"
      and gr: "grouped_from_one (map resSeq ?as)"
  proof -
    have d: "distinct atoms"
      using s by (rule serials_distinct)
    have "?r = ?as"
    proof (rule renumbered_noop)
      show "\<forall>i<length ?as. serial (?as ! i) = 1 + int i"
      proof (intro allI impI)
        fix i assume i: "i < length ?as"
        then have "serial (?as ! i) = map serial ?as ! i" by simp
        also have "\<dots> = map int [1..<Suc (length atoms)] ! i" by (simp only: s)
        also have "\<dots> = 1 + int i" using i by (simp del: upt_Suc)
        finally show "serial (?as ! i) = 1 + int i" .
      qed
      show "?as \<noteq> [] \<longrightarrow> resSeq (?as ! 0) = (if Some (resSeq (?as ! 0)) \<noteq> None then 0 + 1 else 0)"
        unfolding grouped_from_one_nth(1)[OF gr] by simp
      show "\<forall>i. Suc i < length ?as \<longrightarrow>
             resSeq (?as ! Suc i) = resSeq (?as ! i) \<or> resSeq (?as ! Suc i) = resSeq (?as ! i) + 1"
        by (rule grouped_from_one_nth(2)[OF gr])
    qed
    with renumber_loop_distinct[OF d, of 1 0 None objs] have m: "map ?o atoms = map objs atoms"
      by simp
    show "?o = objs"
    proof
      fix p
      show "?o p = objs p"
      proof (cases "p \<in> set atoms")
        case True
        with m show ?thesis by simp
      next
        case False
        with out show ?thesis by simp
      qed
    qed
  qed
  from a b out c d1 e f g show ?thesis
    by (intro exI[of _ ?o] conjI impI) blast+
qed

lemma example_objects_values:
  "map serial (map example_objects [0, 1]) = map int [1..<Suc (length [0::nat, 1])]"
  "grouped_from_one (map resSeq (map example_objects [0, 1]))"
  "map (\<lambda>p. resSeq (example_objects p)) [2, 3, 4] = [5, 5, 8]"
  by (simp_all add: example_objects_def example_atoms_def grouped_from_one_def)

theorem renumber_pass_witness:
  "[0::nat, 1] \<noteq> [] \<and> [2::nat, 3, 4] \<noteq> [] \<and> distinct [2::nat, 3, 4]
   \<and> renumber_atoms [0, 1] example_objects = Inr example_objects
   \<and> fst (snd (writeAtomsToPDB (fixed_floats 3) Map.empty ''out.pdb'' [0, 1] True example_objects))
       = example_objects
   \<and> (\<exists>objs'. renumber_atoms [2, 3, 4] example_objects = Inr objs'
         \<and> map (\<lambda>p. (serial (objs' p), resSeq (objs' p))) [2, 3, 4] = [(1, 1), (2, 1), (3, 2)]
         \<and> objs' 0 = example_objects 0 \<and> objs' 1 = example_objects 1)"
proof -
  have n1: "[0::nat, 1] \<noteq> []" and n2: "[2::nat, 3, 4] \<noteq> []" and d: "distinct [2::nat, 3, 4]"
    by simp_all
  from renumber_pass[OF n1, of example_objects "fixed_floats 3" Map.empty "''out.pdb''"]
    example_objects_values(1,2)
  have first: "renumber_atoms [0, 1] example_objects = Inr example_objects
     \<and> fst (snd (writeAtomsToPDB (fixed_floats 3) Map.empty ''out.pdb'' [0, 1] True example_objects))
         = example_objects"
    by metis
  from renumber_pass[OF n2, of example_objects "fixed_floats 3" Map.empty "''out.pdb''"] d
  obtain objs' where o: "renumber_atoms [2, 3, 4] example_objects = Inr objs'"
    and out: "\<forall>p. p \<notin> set [2::nat, 3, 4] \<longrightarrow> objs' p = example_objects p"
    and ser: "\<forall>i<length [2::nat, 3, 4]. serial (objs' ([2, 3, 4] ! i)) = int i + 1"
    and r0: "resSeq (objs' ([2::nat, 3, 4] ! 0)) = 1"
    and st: "\<forall>i. Suc i < length [2::nat, 3, 4] \<longrightarrow>
                resSeq (objs' ([2, 3, 4] ! Suc i))
                  = resSeq (objs' ([2, 3, 4] ! i))
                    + (if resSeq (example_objects ([2, 3, 4] ! Suc i))
                          \<noteq> resSeq (example_objects ([2, 3, 4] ! i)) then 1 else 0)"
    by blast
  from ser[rule_format, of 0] ser[rule_format, of 1] ser[rule_format, of 2]
  have s: "serial (objs' 2) = 1" "serial (objs' 3) = 2" "serial (objs' 4) = 3"
    by simp_all
  from r0 have r2: "resSeq (objs' 2) = 1"
    by simp
  from st[rule_format, of 0] r2 example_objects_values(3) have r3: "resSeq (objs' 3) = 1"
    by simp
  from st[rule_format, of 1] r3 example_objects_values(3) have r4: "resSeq (objs' 4) = 2"
    by simp
  from out have "objs' 0 = example_objects 0" "objs' 1 = example_objects 1"
    by simp_all
  with n1 n2 d first o s r2 r3 r4 show ?thesis
    by simp
qed

section \<open>C5: the present sequence\<close>

lemma runs_map_key: "map (map key) (runs key xs) = runs (\<lambda>k. k) (map key xs)"
proof (induction key xs rule: runs.induct)
  case (1 key)
  then show ?case by simp
next
  case (2 key x xs)
  have t: "map key (takeWhile (\<lambda>y. key y = key x) xs) = takeWhile (\<lambda>k. k = key x) (map key xs)"
    by (simp add: takeWhile_map comp_def)
  have d: "map key (dropWhile (\<lambda>y. key y = key x) xs) = dropWhile (\<lambda>k. k = key x) (map key xs)"
    by (simp add: dropWhile_map comp_def)
  from 2 t d show ?case by simp
qed

lemma length_runs_key: "length (runs key xs) = length (runs (\<lambda>k. k) (map key xs))"
proof -
  have "length (runs key xs) = length (map (map key) (runs key xs))"
    by simp
  also have "\<dots> = length (runs (\<lambda>k. k) (map key xs))"
    by (simp only: runs_map_key)
  finally show ?thesis .
qed

lemma length_present_sequence_spec:
  "length (present_sequence_spec chain triples)
     = length (runs (\<lambda>k. k) (map (\<lambda>f. (fst (snd f))) (filter (\<lambda>f. fst f = chain) triples)))"
  unfolding present_sequence_spec_def length_map
  by (rule length_runs_key)

lemma getPresentSequence_loop_spec:
  "collect sequence_fields (filter is_atom_line lines) = Inr triples \<Longrightarrow>
     getPresentSequence_loop chain lines seq lst
       = Inr (seq @ map (\<lambda>run. snd (snd (hd run)))
                      (runs (\<lambda>f. fst (snd f))
                         (case lst of
                            None \<Rightarrow> filter (\<lambda>f. fst f = chain) triples
                          | Some r \<Rightarrow> dropWhile (\<lambda>f. fst (snd f) = r)
                                       (filter (\<lambda>f. fst f = chain) triples))))"
proof (induction lines arbitrary: triples seq lst)
  case Nil
  then show ?case by (auto split: option.splits)
next
  case (Cons line lines)
  show ?case
  proof (cases "is_atom_line line")
    case False
    with Cons show ?thesis by simp
  next
    case True
    with Cons.prems obtain c r n ts where
      f: "sequence_fields line = Inr (c, r, n)"
      and ts: "collect sequence_fields (filter is_atom_line lines) = Inr ts"
      and tr: "triples = (c, r, n) # ts"
      by (auto split: sum.splits)
    note IH = Cons.IH[OF ts]
    show ?thesis
    proof (cases "chain = c")
      case False
      with True f tr IH[of seq lst] show ?thesis
        by (simp cong: option.case_cong)
    next
      case c: True
      show ?thesis
      proof (cases "Some r = lst")
        case True
        with \<open>is_atom_line line\<close> f tr c IH[of seq lst] show ?thesis
          by (auto cong: option.case_cong)
      next
        case False
        with \<open>is_atom_line line\<close> f tr c IH[of "seq @ [n]" "Some r"] show ?thesis
          by (cases lst) auto
      qed
    qed
  qed
qed

text \<open>
  Claim C5. For a structure file whose atom lines all have numeric serial and residue
  sequence columns, \<open>getPresentSequence\<close> returns, for the requested chain, one residue
  name per run of consecutive equal residue sequence numbers among the atom lines of
  that chain, in file order, the name being that of the run's first line. In particular a
  chain whose lines have the residue sequence numbers 1, 1, 2, 2, 3 gives 3 names and a
  chain whose lines have 1, 1 gives 1 name. (The default of the \<open>chain\<close> argument is the
  string of one blank.)
\<close>

theorem present_sequence:
  assumes "fs pdbfilename = Some content"
    and "collect sequence_fields (filter is_atom_line (readlines content)) = Inr triples"
  shows "getPresentSequence fs pdbfilename chain = Inr (present_sequence_spec chain triples)
    \<and> (map (\<lambda>f. fst (snd f)) (filter (\<lambda>f. fst f = ''A'') triples) = [1, 1, 2, 2, 3]
         \<longrightarrow> (\<exists>toks. getPresentSequence fs pdbfilename ''A'' = Inr toks \<and> length toks = 3))
    \<and> (map (\<lambda>f. fst (snd f)) (filter (\<lambda>f. fst f = ''B'') triples) = [1, 1]
         \<longrightarrow> (\<exists>toks. getPresentSequence fs pdbfilename ''B'' = Inr toks \<and> length toks = 1))"
proof -
  have g: "getPresentSequence fs pdbfilename ch = Inr (present_sequence_spec ch triples)" for ch
    using assms(1) getPresentSequence_loop_spec[OF assms(2), of ch "[]" None]
    by (simp add: getPresentSequence_def present_sequence_spec_def)
  have a: "length (present_sequence_spec ''A'' triples) = 3"
    if "map (\<lambda>f. fst (snd f)) (filter (\<lambda>f. fst f = ''A'') triples) = [1, 1, 2, 2, 3]"
    by (simp add: length_present_sequence_spec that)
  have b: "length (present_sequence_spec ''B'' triples) = 1"
    if "map (\<lambda>f. fst (snd f)) (filter (\<lambda>f. fst f = ''B'') triples) = [1, 1]"
    by (simp add: length_present_sequence_spec that)
  from g a b show ?thesis by simp
qed

lemma example_pdb_readlines: "readlines example_pdb = map (\<lambda>l. l @ [newline]) example_pdb_lines"
  unfolding example_pdb_def
  by (rule readlines_concat) (simp add: example_pdb_lines_def newline_def)

lemmas int_eval =
  py_int_def strip_def is_space_def digits_value_def is_digit_def nat_of_digits_def
  digit_val_def bind_err_def

lemma example_pdb_triples:
  "collect sequence_fields (filter is_atom_line (readlines example_pdb))
     = Inr [(''A'', 1, ''ALA''), (''A'', 1, ''ALA''), (''A'', 2, ''GLY''), (''A'', 2, ''GLY''),
            (''A'', 3, ''SER''), (''B'', 1, ''HOH''), (''B'', 1, ''HOH'')]"
  unfolding example_pdb_readlines
  by (simp add: example_pdb_lines_def is_atom_line_def substr_def sequence_fields_def int_eval)

theorem present_sequence_witness:
  "[''x.pdb'' \<mapsto> example_pdb] ''x.pdb'' = Some example_pdb
   \<and> getPresentSequence [''x.pdb'' \<mapsto> example_pdb] ''x.pdb'' ''A'' = Inr [''ALA'', ''GLY'', ''SER'']
   \<and> getPresentSequence [''x.pdb'' \<mapsto> example_pdb] ''x.pdb'' ''B'' = Inr [''HOH'']
   \<and> getPresentSequence [''x.pdb'' \<mapsto> example_pdb] ''x.pdb'' '' '' = Inr []"
proof -
  have f: "[''x.pdb'' \<mapsto> example_pdb] ''x.pdb'' = Some example_pdb"
    by simp
  note t = present_sequence[of "[''x.pdb'' \<mapsto> example_pdb]" "''x.pdb''" example_pdb,
      OF f example_pdb_triples]
  have "getPresentSequence [''x.pdb'' \<mapsto> example_pdb] ''x.pdb'' ''A'' = Inr [''ALA'', ''GLY'', ''SER'']"
    using t[of "''A''"] by (simp add: present_sequence_spec_def)
  moreover have "getPresentSequence [''x.pdb'' \<mapsto> example_pdb] ''x.pdb'' ''B'' = Inr [''HOH'']"
    using t[of "''B''"] by (simp add: present_sequence_spec_def)
  moreover have "getPresentSequence [''x.pdb'' \<mapsto> example_pdb] ''x.pdb'' '' '' = Inr []"
    using t[of "'' ''"] by (simp add: present_sequence_spec_def)
  ultimately show ?thesis by simp
qed

section \<open>C7: mandatory and defaulted columns\<close>

lemma digits_value_error: "digits_value s = Inl e \<Longrightarrow> e = ValueError"
  by (auto simp: digits_value_def split: if_splits)

lemma py_int_error: "py_int s = Inl e \<Longrightarrow> e = ValueError"
  by (auto simp: py_int_def bind_err_def dest: digits_value_error
      split: list.splits if_splits sum.splits)

lemma py_float_error: "py_float F s = Inl e \<Longrightarrow> e = ValueError"
  by (auto simp: py_float_def split: if_splits option.splits)

lemma not_numeric_int: "\<not> numeric_int s \<Longrightarrow> py_int s = Inl ValueError"
  using py_int_error[of s] by (cases "py_int s") (auto simp: numeric_int_def)

lemma not_numeric_float: "\<not> numeric_float F s \<Longrightarrow> py_float F s = Inl ValueError"
  using py_float_error[of F s] by (cases "py_float F s") (auto simp: numeric_float_def)

lemma numeric_intE: "numeric_int s \<Longrightarrow> \<exists>n. py_int s = Inr n"
  by (cases "py_int s") (auto simp: numeric_int_def)

lemma numeric_floatE: "numeric_float F s \<Longrightarrow> \<exists>v. py_float F s = Inr v"
  by (cases "py_float F s") (auto simp: numeric_float_def)

lemma bind_err_Inl [simp]: "bind_err (Inl e) f = Inl e"
  by (simp add: bind_err_def)

lemma bind_err_Inr [simp]: "bind_err (Inr v) f = f v"
  by (simp add: bind_err_def)

lemma bind_err_error:
  "bind_err r f = Inl e \<Longrightarrow> (r = Inl e \<or> (\<exists>v. r = Inr v \<and> f v = Inl e))"
  by (cases r) auto

lemma parse_atom_error: "parse_atom F line = Inl e \<Longrightarrow> e = ValueError"
  unfolding parse_atom_def
  by (auto dest!: bind_err_error dest: py_int_error py_float_error split: if_splits)

lemma parse_atom_mandatory:
  assumes "\<not> mandatory_ok F line"
  shows "parse_atom F line = Inl ValueError"
proof -
  have "\<exists>e. parse_atom F line = Inl e"
  proof (cases "numeric_int (substr 6 11 line)")
    case False
    from not_numeric_int[OF this] show ?thesis by (simp add: parse_atom_def)
  next
    case 1: True
    then obtain n1 where n1: "py_int (substr 6 11 line) = Inr n1"
      using numeric_intE by blast
    show ?thesis
    proof (cases "numeric_int (substr 22 26 line)")
      case False
      from not_numeric_int[OF this] n1 show ?thesis by (simp add: parse_atom_def)
    next
      case 2: True
      then obtain n2 where n2: "py_int (substr 22 26 line) = Inr n2"
        using numeric_intE by blast
      show ?thesis
      proof (cases "numeric_float F (substr 30 38 line)")
        case False
        from not_numeric_float[OF this] n1 n2 show ?thesis by (simp add: parse_atom_def)
      next
        case 3: True
        then obtain vx where vx: "py_float F (substr 30 38 line) = Inr vx"
          using numeric_floatE by blast
        show ?thesis
        proof (cases "numeric_float F (substr 38 46 line)")
          case False
          from not_numeric_float[OF this] n1 n2 vx show ?thesis by (simp add: parse_atom_def)
        next
          case 4: True
          then obtain vy where vy: "py_float F (substr 38 46 line) = Inr vy"
            using numeric_floatE by blast
          from assms 1 2 3 4 have "\<not> numeric_float F (substr 46 54 line)"
            by (simp add: mandatory_ok_def)
          from not_numeric_float[OF this] n1 n2 vx vy show ?thesis by (simp add: parse_atom_def)
        qed
      qed
    qed
  qed
  with parse_atom_error show ?thesis by blast
qed

lemma readAtoms_loop_error: "readAtoms_loop F lines acc = Inl e \<Longrightarrow> e = ValueError"
  by (induction lines arbitrary: acc) (auto dest: parse_atom_error split: if_splits sum.splits)

lemma readAtoms_loop_bad_line:
  "line \<in> set lines \<Longrightarrow> is_atom_line line \<Longrightarrow> \<not> mandatory_ok F line \<Longrightarrow>
     readAtoms_loop F lines acc = Inl ValueError"
proof (induction lines arbitrary: acc)
  case Nil
  then show ?case by simp
next
  case (Cons l lines)
  show ?case
  proof (cases "l = line")
    case True
    with Cons.prems parse_atom_mandatory[of F line] show ?thesis by simp
  next
    case False
    with Cons.prems have "line \<in> set lines" by simp
    note IH = Cons.IH[OF this Cons.prems(2,3)]
    show ?thesis
    proof (cases "is_atom_line l")
      case False
      with IH show ?thesis by simp
    next
      case True
      show ?thesis
      proof (cases "parse_atom F l")
        case (Inl e)
        with parse_atom_error[OF Inl] True show ?thesis by simp
      next
        case (Inr a)
        with True IH show ?thesis by simp
      qed
    qed
  qed
qed

lemma parse_atom_defaults:
  assumes "mandatory_ok F line"
    and "blank (substr 54 60 line) \<or> numeric_float F (substr 54 60 line)"
    and "blank (substr 60 66 line) \<or> numeric_float F (substr 60 66 line)"
  shows "\<exists>a. parse_atom F line = Inr a
     \<and> (if blank (substr 54 60 line) then occupancy a = float_one F
         else py_float F (substr 54 60 line) = Inr (occupancy a))
     \<and> (if blank (substr 60 66 line) then tempFactor a = float_zero F
         else py_float F (substr 60 66 line) = Inr (tempFactor a))
     \<and> py_int (substr 6 11 line) = Inr (serial a)
     \<and> py_int (substr 22 26 line) = Inr (resSeq a)
     \<and> py_float F (substr 30 38 line) = Inr (pos_x a)
     \<and> py_float F (substr 38 46 line) = Inr (pos_y a)
     \<and> py_float F (substr 46 54 line) = Inr (pos_z a)"
proof -
  from assms(1) obtain n1 n2 vx vy vz where m:
    "py_int (substr 6 11 line) = Inr n1" "py_int (substr 22 26 line) = Inr n2"
    "py_float F (substr 30 38 line) = Inr vx" "py_float F (substr 38 46 line) = Inr vy"
    "py_float F (substr 46 54 line) = Inr vz"
    unfolding mandatory_ok_def using numeric_intE numeric_floatE by metis
  have "\<exists>vo. (if strip (substr 54 60 line) \<noteq> [] then py_float F (substr 54 60 line)
               else Inr (float_one F)) = Inr vo"
  proof (cases "strip (substr 54 60 line) = []")
    case True
    then show ?thesis by simp
  next
    case False
    with assms(2) have "numeric_float F (substr 54 60 line)" by (simp add: blank_def)
    from numeric_floatE[OF this] False show ?thesis by simp
  qed
  then obtain vo where vo: "(if strip (substr 54 60 line) \<noteq> [] then py_float F (substr 54 60 line)
               else Inr (float_one F)) = Inr vo"
    by blast
  have "\<exists>vt. (if strip (substr 60 66 line) \<noteq> [] then py_float F (substr 60 66 line)
               else Inr (float_zero F)) = Inr vt"
  proof (cases "strip (substr 60 66 line) = []")
    case True
    then show ?thesis by simp
  next
    case False
    with assms(3) have "numeric_float F (substr 60 66 line)" by (simp add: blank_def)
    from numeric_floatE[OF this] False show ?thesis by simp
  qed
  then obtain vt where vt: "(if strip (substr 60 66 line) \<noteq> [] then py_float F (substr 60 66 line)
               else Inr (float_zero F)) = Inr vt"
    by blast
  have "parse_atom F line =
      Inr \<lparr> serial = n1, name = substr 12 16 line, altLoc = substr 16 17 line,
             resName = substr 17 20 line, chainID = substr 21 22 line, resSeq = n2,
             iCode = substr 26 27 line, pos_x = vx, pos_y = vy, pos_z = vz,
             occupancy = vo, tempFactor = vt,
             segID = substr 72 76 line, element = substr 76 78 line,
             charge = substr 78 80 line \<rparr>"
    unfolding parse_atom_def m vo vt by simp
  moreover from vo have "if blank (substr 54 60 line) then vo = float_one F
         else py_float F (substr 54 60 line) = Inr vo"
    by (auto simp: blank_def split: if_splits)
  moreover from vt have "if blank (substr 60 66 line) then vt = float_zero F
         else py_float F (substr 60 66 line) = Inr vt"
    by (auto simp: blank_def split: if_splits)
  ultimately show ?thesis using m by simp
qed

lemma readAtoms_loop_ok:
  "list_all (\<lambda>l. is_atom_line l \<longrightarrow> (\<exists>a. parse_atom F l = Inr a)) lines \<Longrightarrow>
     readAtoms_loop F lines acc
       = Inr (acc @ map (\<lambda>l. projr (parse_atom F l)) (filter is_atom_line lines))"
proof (induction lines arbitrary: acc)
  case Nil
  then show ?case by simp
next
  case (Cons l lines)
  then have t: "list_all (\<lambda>l. is_atom_line l \<longrightarrow> (\<exists>a. parse_atom F l = Inr a)) lines"
    by simp
  show ?case
  proof (cases "is_atom_line l")
    case False
    with Cons.IH[OF t] show ?thesis by simp
  next
    case True
    with Cons.prems obtain a where a: "parse_atom F l = Inr a" by auto
    with True Cons.IH[OF t, of "acc @ [a]"] show ?thesis by simp
  qed
qed

text \<open>
  Claim C7. Reading a file with \<open>readAtomsFromPDB\<close>, where the atom lines are the lines
  that start with the six characters \<open>ATOM\<close> and two blanks:
  if the serial, residue-sequence-number, x, y or z column of some atom line is not
  numeric, the call fails with the ValueError of the conversion (the specification's
  FormatError); a column that is blank or absent is not numeric.
  If on every atom line these five columns are numeric and the occupancy and
  temperature-factor columns are each blank, absent or numeric, the call does not fail:
  it returns one record per atom line, in the order of the lines, and the record of a
  line has the values of the five mandatory columns, occupancy 1.0 when the line's
  occupancy column is blank and the column's value otherwise, and temperature factor 0.0
  when the line's temperature-factor column is blank and the column's value otherwise.
\<close>

theorem mandatory_columns:
  assumes "fs pdbfilename = Some content"
  shows "((\<exists>line\<in>set (readlines content). is_atom_line line \<and> \<not> mandatory_ok F line)
            \<longrightarrow> readAtomsFromPDB F fs pdbfilename = Inl ValueError)
     \<and> (blank s \<longrightarrow> \<not> numeric_int s \<and> \<not> numeric_float F s)
     \<and> ((\<forall>line\<in>set (readlines content).
            is_atom_line line \<longrightarrow> mandatory_ok F line \<and> defaulted_ok F line)
          \<longrightarrow> (\<exists>atoms. readAtomsFromPDB F fs pdbfilename = Inr atoms
                \<and> length atoms = length (filter is_atom_line (readlines content))
                \<and> (\<forall>i<length atoms.
                      py_int (substr 6 11 (filter is_atom_line (readlines content) ! i))
                        = Inr (serial (atoms ! i))
                      \<and> py_int (substr 22 26 (filter is_atom_line (readlines content) ! i))
                        = Inr (resSeq (atoms ! i))
                      \<and> py_float F (substr 30 38 (filter is_atom_line (readlines content) ! i))
                        = Inr (pos_x (atoms ! i))
                      \<and> py_float F (substr 38 46 (filter is_atom_line (readlines content) ! i))
                        = Inr (pos_y (atoms ! i))
                      \<and> py_float F (substr 46 54 (filter is_atom_line (readlines content) ! i))
                        = Inr (pos_z (atoms ! i))
                      \<and> (if blank (substr 54 60 (filter is_atom_line (readlines content) ! i))
                         then occupancy (atoms ! i) = float_one F
                         else py_float F (substr 54 60 (filter is_atom_line (readlines content) ! i))
                                = Inr (occupancy (atoms ! i)))
                      \<and> (if blank (substr 60 66 (filter is_atom_line (readlines content) ! i))
                         then tempFactor (atoms ! i) = float_zero F
                         else py_float F (substr 60 66 (filter is_atom_line (readlines content) ! i))
                                = Inr (tempFactor (atoms ! i))))))"
proof (intro conjI impI)
  assume "\<exists>line\<in>set (readlines content). is_atom_line line \<and> \<not> mandatory_ok F line"
  then obtain line where "line \<in> set (readlines content)" "is_atom_line line"
    "\<not> mandatory_ok F line"
    by blast
  from readAtoms_loop_bad_line[OF this, of "[]"] assms
  show "readAtomsFromPDB F fs pdbfilename = Inl ValueError"
    by (simp add: readAtomsFromPDB_def)
next
  assume "blank s"
  then show "\<not> numeric_int s" by (rule blank_not_numeric_int)
next
  assume "blank s"
  then show "\<not> numeric_float F s" by (rule blank_not_numeric_float)
next
  let ?ls = "filter is_atom_line (readlines content)"
  let ?as = "map (\<lambda>l. projr (parse_atom F l)) ?ls"
  assume ok: "\<forall>line\<in>set (readlines content).
                is_atom_line line \<longrightarrow> mandatory_ok F line \<and> defaulted_ok F line"
  have cols: "\<exists>a. parse_atom F line = Inr a
     \<and> (if blank (substr 54 60 line) then occupancy a = float_one F
         else py_float F (substr 54 60 line) = Inr (occupancy a))
     \<and> (if blank (substr 60 66 line) then tempFactor a = float_zero F
         else py_float F (substr 60 66 line) = Inr (tempFactor a))
     \<and> py_int (substr 6 11 line) = Inr (serial a)
     \<and> py_int (substr 22 26 line) = Inr (resSeq a)
     \<and> py_float F (substr 30 38 line) = Inr (pos_x a)
     \<and> py_float F (substr 38 46 line) = Inr (pos_y a)
     \<and> py_float F (substr 46 54 line) = Inr (pos_z a)"
    if "line \<in> set (readlines content)" "is_atom_line line" for line
  proof -
    from ok that have "mandatory_ok F line" "defaulted_ok F line" by auto
    then show ?thesis
      by (intro parse_atom_defaults) (simp_all add: defaulted_ok_def)
  qed
  have "list_all (\<lambda>l. is_atom_line l \<longrightarrow> (\<exists>a. parse_atom F l = Inr a)) (readlines content)"
    unfolding list_all_iff using cols by blast
  from readAtoms_loop_ok[OF this, of "[]"] assms
  have r: "readAtomsFromPDB F fs pdbfilename = Inr ?as"
    by (simp add: readAtomsFromPDB_def)
  have each: "py_int (substr 6 11 (?ls ! i)) = Inr (serial (?as ! i))
      \<and> py_int (substr 22 26 (?ls ! i)) = Inr (resSeq (?as ! i))
      \<and> py_float F (substr 30 38 (?ls ! i)) = Inr (pos_x (?as ! i))
      \<and> py_float F (substr 38 46 (?ls ! i)) = Inr (pos_y (?as ! i))
      \<and> py_float F (substr 46 54 (?ls ! i)) = Inr (pos_z (?as ! i))
      \<and> (if blank (substr 54 60 (?ls ! i)) then occupancy (?as ! i) = float_one F
          else py_float F (substr 54 60 (?ls ! i)) = Inr (occupancy (?as ! i)))
      \<and> (if blank (substr 60 66 (?ls ! i)) then tempFactor (?as ! i) = float_zero F
          else py_float F (substr 60 66 (?ls ! i)) = Inr (tempFactor (?as ! i)))"
    if i: "i < length ?as" for i
  proof -
    from i have il: "i < length ?ls" by simp
    have m: "?ls ! i \<in> set ?ls" by (rule nth_mem[OF il])
    have "?ls ! i \<in> set (readlines content)" "is_atom_line (?ls ! i)"
      using m unfolding set_filter by blast+
    from cols[OF this] obtain a where a: "parse_atom F (?ls ! i) = Inr a"
      and f: "(if blank (substr 54 60 (?ls ! i)) then occupancy a = float_one F
                else py_float F (substr 54 60 (?ls ! i)) = Inr (occupancy a))"
        "(if blank (substr 60 66 (?ls ! i)) then tempFactor a = float_zero F
                else py_float F (substr 60 66 (?ls ! i)) = Inr (tempFactor a))"
        "py_int (substr 6 11 (?ls ! i)) = Inr (serial a)"
        "py_int (substr 22 26 (?ls ! i)) = Inr (resSeq a)"
        "py_float F (substr 30 38 (?ls ! i)) = Inr (pos_x a)"
        "py_float F (substr 38 46 (?ls ! i)) = Inr (pos_y a)"
        "py_float F (substr 46 54 (?ls ! i)) = Inr (pos_z a)"
      by blast
    from i a have "?as ! i = a" by simp
    with f show ?thesis by (simp only:)
  qed
  show "\<exists>atoms. readAtomsFromPDB F fs pdbfilename = Inr atoms
                \<and> length atoms = length ?ls
                \<and> (\<forall>i<length atoms.
                      py_int (substr 6 11 (?ls ! i)) = Inr (serial (atoms ! i))
                      \<and> py_int (substr 22 26 (?ls ! i)) = Inr (resSeq (atoms ! i))
                      \<and> py_float F (substr 30 38 (?ls ! i)) = Inr (pos_x (atoms ! i))
                      \<and> py_float F (substr 38 46 (?ls ! i)) = Inr (pos_y (atoms ! i))
                      \<and> py_float F (substr 46 54 (?ls ! i)) = Inr (pos_z (atoms ! i))
                      \<and> (if blank (substr 54 60 (?ls ! i))
                         then occupancy (atoms ! i) = float_one F
                         else py_float F (substr 54 60 (?ls ! i)) = Inr (occupancy (atoms ! i)))
                      \<and> (if blank (substr 60 66 (?ls ! i))
                         then tempFactor (atoms ! i) = float_zero F
                         else py_float F (substr 60 66 (?ls ! i)) = Inr (tempFactor (atoms ! i))))"
  proof (intro exI[of _ ?as] conjI)
    show "readAtomsFromPDB F fs pdbfilename = Inr ?as"
      by (rule r)
    show "length ?as = length ?ls"
      by simp
  qed (use each in blast)
qed

lemma example_bad_file_lines:
  "readlines (example_pdb @ example_bad_line @ [newline])
     = map (\<lambda>l. l @ [newline]) (example_pdb_lines @ [example_bad_line])"
proof -
  have "example_pdb @ example_bad_line @ [newline]
          = concat (map (\<lambda>l. l @ [newline]) (example_pdb_lines @ [example_bad_line]))"
    by (simp add: example_pdb_def)
  moreover have "readlines (concat (map (\<lambda>l. l @ [newline]) (example_pdb_lines @ [example_bad_line])))
          = map (\<lambda>l. l @ [newline]) (example_pdb_lines @ [example_bad_line])"
    by (rule readlines_concat)
      (simp add: example_pdb_lines_def example_bad_line_def newline_def)
  ultimately show ?thesis by simp
qed

lemma example_bad_line_facts:
  "is_atom_line (example_bad_line @ [newline])"
  "\<not> mandatory_ok F (example_bad_line @ [newline])"
  by (simp_all add: example_bad_line_def is_atom_line_def mandatory_ok_def numeric_int_def
      substr_def int_eval)

lemma example_short_line_facts:
  "mandatory_ok (fixed_floats 3) example_short_line"
  "blank (substr 54 60 example_short_line)"
  "blank (substr 60 66 example_short_line)"
  by (simp_all add: example_short_line_def mandatory_ok_def numeric_int_def numeric_float_def
      blank_def py_float_def substr_def py_int_def strip_def digits_value_def bind_err_def
      fixed_eval)

lemma example_defaults_file_lines:
  "readlines example_defaults_pdb = map (\<lambda>l. l @ [newline]) example_defaults_lines"
  unfolding example_defaults_pdb_def
  by (rule readlines_concat)
    (simp add: example_defaults_lines_def example_short_line_def newline_def)

lemma example_defaults_atom_lines:
  "filter is_atom_line (readlines example_defaults_pdb)
     = [example_short_line @ [newline],
        ''ATOM      2  CA  ALA A   1      11.639   6.071  -5.147  0.50 12.30           C  ''
          @ [newline]]"
  unfolding example_defaults_file_lines
  by (simp add: example_defaults_lines_def example_short_line_def is_atom_line_def substr_def)

lemma example_defaults_columns:
  "mandatory_ok (fixed_floats 3) (example_short_line @ [newline])"
  "defaulted_ok (fixed_floats 3) (example_short_line @ [newline])"
  "blank (substr 54 60 (example_short_line @ [newline]))"
  "blank (substr 60 66 (example_short_line @ [newline]))"
  "mandatory_ok (fixed_floats 3)
     (''ATOM      2  CA  ALA A   1      11.639   6.071  -5.147  0.50 12.30           C  ''
        @ [newline])"
  "defaulted_ok (fixed_floats 3)
     (''ATOM      2  CA  ALA A   1      11.639   6.071  -5.147  0.50 12.30           C  ''
        @ [newline])"
  "\<not> blank (substr 54 60
     (''ATOM      2  CA  ALA A   1      11.639   6.071  -5.147  0.50 12.30           C  ''
        @ [newline]))"
  "\<not> blank (substr 60 66
     (''ATOM      2  CA  ALA A   1      11.639   6.071  -5.147  0.50 12.30           C  ''
        @ [newline]))"
  "py_float (fixed_floats 3) (substr 54 60
     (''ATOM      2  CA  ALA A   1      11.639   6.071  -5.147  0.50 12.30           C  ''
        @ [newline])) = Inr 500"
  "py_float (fixed_floats 3) (substr 60 66
     (''ATOM      2  CA  ALA A   1      11.639   6.071  -5.147  0.50 12.30           C  ''
        @ [newline])) = Inr 12300"
  by (simp_all add: example_short_line_def mandatory_ok_def defaulted_ok_def numeric_int_def
      numeric_float_def blank_def py_float_def substr_def py_int_def strip_def digits_value_def
      bind_err_def newline_def fixed_eval)

theorem mandatory_columns_witness:
  "readAtomsFromPDB (fixed_floats 3)
       [''x.pdb'' \<mapsto> example_pdb @ example_bad_line @ [newline]] ''x.pdb'' = Inl ValueError
   \<and> \<not> numeric_int ''   '' \<and> \<not> numeric_float (fixed_floats 3) ''   ''
   \<and> (\<exists>atoms. readAtomsFromPDB (fixed_floats 3) [''y.pdb'' \<mapsto> example_defaults_pdb] ''y.pdb''
                  = Inr atoms
          \<and> length atoms = 2
          \<and> occupancy (atoms ! 0) = float_one (fixed_floats 3)
          \<and> tempFactor (atoms ! 0) = float_zero (fixed_floats 3)
          \<and> occupancy (atoms ! 1) = 500
          \<and> tempFactor (atoms ! 1) = 12300)"
proof -
  have b: "blank ''   ''"
    by (simp add: blank_def strip_def)
  have m: "example_bad_line @ [newline]
             \<in> set (readlines (example_pdb @ example_bad_line @ [newline]))"
    unfolding example_bad_file_lines by simp
  have x: "[''x.pdb'' \<mapsto> example_pdb @ example_bad_line @ [newline]] ''x.pdb''
             = Some (example_pdb @ example_bad_line @ [newline])"
    by simp
  have y: "[''y.pdb'' \<mapsto> example_defaults_pdb] ''y.pdb'' = Some example_defaults_pdb"
    by simp
  have ok: "\<forall>line\<in>set (readlines example_defaults_pdb).
              is_atom_line line
                \<longrightarrow> mandatory_ok (fixed_floats 3) line \<and> defaulted_ok (fixed_floats 3) line"
  proof (intro ballI impI)
    fix line assume "line \<in> set (readlines example_defaults_pdb)" "is_atom_line line"
    then have "line \<in> set (filter is_atom_line (readlines example_defaults_pdb))"
      by simp
    then show "mandatory_ok (fixed_floats 3) line \<and> defaulted_ok (fixed_floats 3) line"
      unfolding example_defaults_atom_lines using example_defaults_columns(1,2,5,6) by auto
  qed
  from mandatory_columns[where fs = "[''x.pdb'' \<mapsto> example_pdb @ example_bad_line @ [newline]]"
      and pdbfilename = "''x.pdb''" and content = "example_pdb @ example_bad_line @ [newline]"
      and F = "fixed_floats 3" and s = "''   ''", OF x, THEN conjunct1]
    m example_bad_line_facts
  have first: "readAtomsFromPDB (fixed_floats 3)
       [''x.pdb'' \<mapsto> example_pdb @ example_bad_line @ [newline]] ''x.pdb'' = Inl ValueError"
    by blast
  from mandatory_columns[where fs = "[''x.pdb'' \<mapsto> example_pdb @ example_bad_line @ [newline]]"
      and pdbfilename = "''x.pdb''" and content = "example_pdb @ example_bad_line @ [newline]"
      and F = "fixed_floats 3" and s = "''   ''", OF x,
      THEN conjunct2, THEN conjunct1] b
  have second: "\<not> numeric_int ''   '' \<and> \<not> numeric_float (fixed_floats 3) ''   ''"
    by blast
  from mandatory_columns[where fs = "[''y.pdb'' \<mapsto> example_defaults_pdb]"
      and pdbfilename = "''y.pdb''" and content = example_defaults_pdb
      and F = "fixed_floats 3" and s = "''   ''", OF y,
      THEN conjunct2, THEN conjunct2, THEN mp, OF ok]
  obtain atoms where r: "readAtomsFromPDB (fixed_floats 3) [''y.pdb'' \<mapsto> example_defaults_pdb]
                           ''y.pdb'' = Inr atoms"
    and l: "length atoms = length (filter is_atom_line (readlines example_defaults_pdb))"
    and f: "\<And>i. i < length atoms \<Longrightarrow>
              (if blank (substr 54 60 (filter is_atom_line (readlines example_defaults_pdb) ! i))
               then occupancy (atoms ! i) = float_one (fixed_floats 3)
               else py_float (fixed_floats 3)
                      (substr 54 60 (filter is_atom_line (readlines example_defaults_pdb) ! i))
                      = Inr (occupancy (atoms ! i)))
              \<and> (if blank (substr 60 66 (filter is_atom_line (readlines example_defaults_pdb) ! i))
                 then tempFactor (atoms ! i) = float_zero (fixed_floats 3)
                 else py_float (fixed_floats 3)
                        (substr 60 66 (filter is_atom_line (readlines example_defaults_pdb) ! i))
                        = Inr (tempFactor (atoms ! i)))"
    by blast
  from l have l2: "length atoms = 2"
    unfolding example_defaults_atom_lines by simp
  from f[of 0] l2 example_defaults_columns(3,4)
  have a0: "occupancy (atoms ! 0) = float_one (fixed_floats 3)"
    "tempFactor (atoms ! 0) = float_zero (fixed_floats 3)"
    unfolding example_defaults_atom_lines by simp_all
  from f[of 1] l2 example_defaults_columns(7,8,9,10)
  have a1: "occupancy (atoms ! 1) = 500" "tempFactor (atoms ! 1) = 12300"
    unfolding example_defaults_atom_lines by simp_all
  from first second r l2 a0 a1 show ?thesis
    by blast
qed

section \<open>Writing a coordinate file\<close>

lemma chunks_Nil [simp]: "chunks n [] = []"
  by (simp add: chunks.simps)

lemma chunks_step: "xs \<noteq> [] \<Longrightarrow> 0 < n \<Longrightarrow> chunks n xs = take n xs # chunks n (drop n xs)"
  by (subst chunks.simps) simp

lemma concat_chunks: "0 < n \<Longrightarrow> concat (chunks n xs) = xs"
proof (induction n xs rule: chunks.induct)
  case (1 n xs)
  show ?case
  proof (cases "xs = []")
    case True
    then show ?thesis by simp
  next
    case False
    with 1 have "concat (chunks n (drop n xs)) = drop n xs" by simp
    with chunks_step[OF False 1(2)] show ?thesis by simp
  qed
qed

lemma chunks_short:
  assumes "xs \<noteq> []" "length xs \<le> n"
  shows "chunks n xs = [xs]"
proof -
  from assms have "0 < n" by (cases n) auto
  from chunks_step[OF assms(1) this] assms(2) show ?thesis by simp
qed

lemma chunks_nonempty: "xs \<noteq> [] \<Longrightarrow> 0 < n \<Longrightarrow> chunks n xs \<noteq> []"
  using chunks_step[of xs n] by simp

lemma chunks_butlast_full: "0 < n \<Longrightarrow> list_all (\<lambda>c. length c = n) (butlast (chunks n xs))"
proof (induction n xs rule: chunks.induct)
  case (1 n xs)
  show ?case
  proof (cases "length xs \<le> n")
    case True
    show ?thesis
    proof (cases "xs = []")
      case True
      then show ?thesis by simp
    next
      case False
      from chunks_short[OF False True] show ?thesis by simp
    qed
  next
    case False
    then have ne: "xs \<noteq> []" "drop n xs \<noteq> []" by auto
    from chunks_nonempty[OF ne(2) 1(2)] have c: "chunks n (drop n xs) \<noteq> []" .
    from 1 ne have "list_all (\<lambda>c. length c = n) (butlast (chunks n (drop n xs)))" by simp
    with chunks_step[OF ne(1) 1(2)] c False show ?thesis by simp
  qed
qed

lemma chunks_last_length:
  "0 < n \<Longrightarrow> xs \<noteq> [] \<Longrightarrow>
     length (last (chunks n xs)) = (if length xs mod n = 0 then n else length xs mod n)"
proof (induction n xs rule: chunks.induct)
  case (1 n xs)
  show ?case
  proof (cases "length xs \<le> n")
    case True
    from chunks_short[OF 1(3) True] True 1(2) 1(3) show ?thesis
      by (cases "length xs = n") simp_all
  next
    case False
    then have ne: "drop n xs \<noteq> []" by auto
    from chunks_nonempty[OF ne 1(2)] have c: "chunks n (drop n xs) \<noteq> []" .
    have "length (last (chunks n (drop n xs)))
            = (if length (drop n xs) mod n = 0 then n else length (drop n xs) mod n)"
      using 1 ne by simp
    moreover have "length (drop n xs) mod n = length xs mod n"
      using False by (simp add: le_mod_geq)
    ultimately show ?thesis
      using chunks_step[OF 1(3) 1(2)] c by simp
  qed
qed

lemma write_coordinates_line:
  "k < 6 \<Longrightarrow>
     write_coordinates F vs k =
       (if length vs < 6 - k then concat (map (fmt_f F 12 7) vs)
        else concat (map (fmt_f F 12 7) (take (6 - k) vs))
               @ newline # write_coordinates F (drop (6 - k) vs) 0)"
proof (induction vs arbitrary: k)
  case Nil
  then show ?case by simp
next
  case (Cons v vs)
  show ?case
  proof (cases "k + 1 = 6")
    case True
    then show ?thesis by simp
  next
    case False
    with Cons.prems have k: "k + 1 < 6" by simp
    from False Cons.IH[OF k] Cons.prems show ?thesis
      by (auto simp: Suc_diff_Suc take_Cons' drop_Cons')
  qed
qed

lemma write_coordinates_chunks:
  "write_coordinates F vs 0 = concat (map (crd_line F) (chunks 6 vs))"
proof (induction "6::nat" vs rule: chunks.induct)
  case (1 vs)
  show ?case
  proof (cases "vs = []")
    case True
    then show ?thesis by simp
  next
    case ne: False
    show ?thesis
    proof (cases "length vs < 6")
      case True
      with ne have "chunks 6 vs = [vs]" by (simp add: chunks_short)
      with True write_coordinates_line[of 0 F vs] show ?thesis
        by (simp add: crd_line_def)
    next
      case False
      with ne 1 have "write_coordinates F (drop 6 vs) 0
                       = concat (map (crd_line F) (chunks 6 (drop 6 vs)))"
        by simp
      with False chunks_step[OF ne, of 6] write_coordinates_line[of 0 F vs] show ?thesis
        by (simp add: crd_line_def)
    qed
  qed
qed

lemma append_if_true_target:
  "append_if_true h target arg target = h target @ list_arg h arg"
  by (auto simp: append_if_true_def list_arg_def split: option.splits)

lemma append_if_true_other:
  "r \<noteq> target \<Longrightarrow> append_if_true h target arg r = h r"
  by (auto simp: append_if_true_def split: option.splits)

lemma writeAmberCrd_valid:
  assumes "length (h coordinates) mod 3 = 0"
  shows "writeAmberCrd F crd_filename coordinates title box_dimensions box_angles (h, fs)
     = (Inr (),
        append_if_true (append_if_true h coordinates box_dimensions) coordinates box_angles,
        fs(crd_filename \<mapsto>
            crd_text F title (length (h coordinates) div 3)
              (append_if_true (append_if_true h coordinates box_dimensions) coordinates
                 box_angles coordinates)))"
  using assms
  by (simp add: writeAmberCrd_def Let_def crd_text_def write_coordinates_chunks)

lemma written_values:
  assumes "box_angles \<noteq> Some coordinates"
  shows "append_if_true (append_if_true h coordinates box_dimensions) coordinates box_angles
           coordinates
         = h coordinates @ list_arg h box_dimensions @ list_arg h box_angles"
proof -
  have "list_arg (append_if_true h coordinates box_dimensions) box_angles = list_arg h box_angles"
    using assms by (cases box_angles) (auto simp: list_arg_def append_if_true_other)
  then show ?thesis
    by (simp add: append_if_true_target)
qed

section \<open>C3: a coordinate list that is not made of triples\<close>

text \<open>
  Claim C3, on the code. When the length of the coordinate list is not a multiple of 3,
  \<open>writeAmberCrd\<close> raises before it appends anything or opens the file, whatever the box
  arguments are: the store and the file system are as before. The exception is the
  NameError of the name \<open>ParameterError\<close>, which the module never binds, and not an
  exception of a class \<open>ParameterError\<close>.
\<close>

theorem bad_length_raises:
  "length (h coordinates) mod 3 \<noteq> 0 \<Longrightarrow>
     writeAmberCrd F crd_filename coordinates title box_dimensions box_angles (h, fs)
       = (Inl (NameError ''ParameterError''), h, fs)"
  by (simp add: writeAmberCrd_def)

theorem bad_length_raises_witness:
  "length (example_heap 3) mod 3 \<noteq> 0
   \<and> writeAmberCrd (fixed_floats 3) ''out.crd'' 3 ''title'' (Some 1) (Some 2)
        (example_heap, Map.empty)
       = (Inl (NameError ''ParameterError''), example_heap, Map.empty)"
proof -
  have l: "length (example_heap 3) mod 3 \<noteq> 0"
    by (simp add: example_heap_def)
  from bad_length_raises[where h = example_heap and coordinates = 3, OF l] l
  show ?thesis by simp
qed

section \<open>C10: the caller's list after the call\<close>

text \<open>
  Claim C10 as stated fails on a call that does not pass the length check: with box
  dimensions present and a coordinate list of two values, the call raises and the
  caller's list is as long as before.
\<close>

theorem append_in_place_counterexample:
  "length (example_heap 1) = 3
   \<and> fst (writeAmberCrd (fixed_floats 3) ''out.crd'' 3 ''title'' (Some 1) None
            (example_heap, Map.empty)) = Inl (NameError ''ParameterError'')
   \<and> length (fst (snd (writeAmberCrd (fixed_floats 3) ''out.crd'' 3 ''title'' (Some 1) None
                          (example_heap, Map.empty))) 3)
       = length (example_heap 3)"
  by (simp add: writeAmberCrd_def example_heap_def)

text \<open>
  Claim C10, amended. For every call of \<open>writeAmberCrd\<close> that passes the length check
  (the coordinate list holds a multiple of 3 values), with a box-dimensions argument of
  3 values, and a box-angles argument that is either absent or a list of 3 values that is
  not the coordinate list itself: after the call the caller's coordinate list is the
  list before the call followed by the box dimensions and then the box angles, so it is
  longer by 3, or by 6 with angles; every other list of the store is unchanged.
\<close>

theorem append_in_place:
  assumes "length (h coordinates) mod 3 = 0"
    and "length (h bd) = 3"
    and "box_angles = None \<or> (\<exists>ba. box_angles = Some ba \<and> ba \<noteq> coordinates \<and> length (h ba) = 3)"
  shows "fst (snd (writeAmberCrd F crd_filename coordinates title (Some bd) box_angles (h, fs)))
           coordinates
         = h coordinates @ h bd @ list_arg h box_angles
    \<and> length (fst (snd (writeAmberCrd F crd_filename coordinates title (Some bd) box_angles
                          (h, fs))) coordinates)
       = length (h coordinates) + (if box_angles = None then 3 else 6)
    \<and> (\<forall>r. r \<noteq> coordinates \<longrightarrow>
          fst (snd (writeAmberCrd F crd_filename coordinates title (Some bd) box_angles (h, fs))) r
          = h r)"
proof -
  from assms(3) have na: "box_angles \<noteq> Some coordinates" by auto
  have v: "fst (snd (writeAmberCrd F crd_filename coordinates title (Some bd) box_angles (h, fs)))
           coordinates
         = h coordinates @ h bd @ list_arg h box_angles"
    using written_values[where h = h and box_dimensions = "Some bd", OF na]
    by (simp add: writeAmberCrd_valid[where h = h and coordinates = coordinates, OF assms(1)] list_arg_def)
  have "length (list_arg h box_angles) = (if box_angles = None then 0 else 3)"
    using assms(3) by (auto simp: list_arg_def)
  with v assms(2) have l: "length (fst (snd (writeAmberCrd F crd_filename coordinates title
        (Some bd) box_angles (h, fs))) coordinates)
       = length (h coordinates) + (if box_angles = None then 3 else 6)"
    by simp
  have "\<forall>r. r \<noteq> coordinates \<longrightarrow>
          fst (snd (writeAmberCrd F crd_filename coordinates title (Some bd) box_angles (h, fs))) r
          = h r"
    by (simp add: writeAmberCrd_valid[where h = h and coordinates = coordinates, OF assms(1)] append_if_true_other)
  with v l show ?thesis by blast
qed

theorem append_in_place_witness:
  "length (example_heap 0) mod 3 = 0 \<and> length (example_heap 1) = 3
   \<and> length (example_heap 2) = 3
   \<and> fst (snd (writeAmberCrd (fixed_floats 3) ''out.crd'' 0 ''title'' (Some 1) (Some 2)
                 (example_heap, Map.empty))) 0
       = [1000, 2000, 3000, 30000, 30000, 30000, 90000, 90000, 90000]
   \<and> fst (snd (writeAmberCrd (fixed_floats 3) ''out.crd'' 0 ''title'' (Some 1) None
                 (example_heap, Map.empty))) 0
       = [1000, 2000, 3000, 30000, 30000, 30000]"
proof -
  have a: "length (example_heap 0) mod 3 = 0" "length (example_heap 1) = 3"
    "length (example_heap 2) = 3"
    by (simp_all add: example_heap_def)
  have b: "Some 2 = None \<or> (\<exists>ba. Some 2 = Some ba \<and> ba \<noteq> (0::nat) \<and> length (example_heap ba) = 3)"
    using a by simp
  have c: "None = None \<or> (\<exists>ba. None = Some ba \<and> ba \<noteq> (0::nat) \<and> length (example_heap ba) = 3)"
    by simp
  from append_in_place[where h = example_heap and coordinates = 0 and bd = 1
      and box_angles = "Some 2" and F = "fixed_floats 3" and crd_filename = "''out.crd''"
      and title = "''title''" and fs = Map.empty, OF a(1) a(2) b]
  have "fst (snd (writeAmberCrd (fixed_floats 3) ''out.crd'' 0 ''title'' (Some 1) (Some 2)
                 (example_heap, Map.empty))) 0
       = [1000, 2000, 3000, 30000, 30000, 30000, 90000, 90000, 90000]"
    by (simp add: list_arg_def example_heap_def)
  moreover
  from append_in_place[where h = example_heap and coordinates = 0 and bd = 1
      and box_angles = None and F = "fixed_floats 3" and crd_filename = "''out.crd''"
      and title = "''title''" and fs = Map.empty, OF a(1) a(2) c]
  have "fst (snd (writeAmberCrd (fixed_floats 3) ''out.crd'' 0 ''title'' (Some 1) None
                 (example_heap, Map.empty))) 0
       = [1000, 2000, 3000, 30000, 30000, 30000]"
    by (simp add: list_arg_def example_heap_def)
  ultimately show ?thesis using a by simp
qed

section \<open>C8: the text of the coordinate file\<close>

lemma fixed_values_text:
  "fmt_f (fixed_floats 3) 12 7 1000 = ''   1.0000000''"
  "fmt_f (fixed_floats 3) 12 7 2000 = ''   2.0000000''"
  "fmt_f (fixed_floats 3) 12 7 3000 = ''   3.0000000''"
  "fmt_f (fixed_floats 3) 12 7 30000 = ''  30.0000000''"
  "fmt_f (fixed_floats 3) 12 7 90000 = ''  90.0000000''"
  "fmt_d 6 1 = ''     1''"
  by (simp_all add: fmt_f_def fmt_d_def show_int_def rjust_def fixed_eval)

text \<open>
  Claim C8 as stated fails on a last line of fewer than 6 values: for one atom and no
  box, the file ends with the third value and no line terminator.
\<close>

theorem coordinate_file_counterexample:
  "snd (snd (writeAmberCrd (fixed_floats 3) ''out.crd'' 0 ''title'' None None
               (example_heap, Map.empty))) ''out.crd''
     = Some (''title'' @ [newline] @ ''     1'' @ [newline]
             @ ''   1.0000000   2.0000000   3.0000000'')
   \<and> last (''title'' @ [newline] @ ''     1'' @ [newline]
             @ ''   1.0000000   2.0000000   3.0000000'') \<noteq> newline"
proof -
  have a: "length (example_heap 0) mod 3 = 0"
    by (simp add: example_heap_def)
  have v: "example_heap 0 = [1000, 2000, 3000]"
    by (simp add: example_heap_def)
  have c: "chunks 6 [1000, 2000, 3000 :: int] = [[1000, 2000, 3000]]"
    by (rule chunks_short) simp_all
  show ?thesis
    by (simp add: writeAmberCrd_valid[where h = example_heap and coordinates = 0, OF a]
        append_if_true_def v crd_text_def c crd_line_def fixed_values_text newline_def)
qed

lemma crd_text_full:
  assumes "length vs mod 6 = 0"
  shows "last (crd_text F title natoms vs) = newline"
proof (cases "vs = []")
  case True
  then show ?thesis by (simp add: crd_text_def)
next
  case False
  from chunks_nonempty[OF False, of 6] have ne: "chunks 6 vs \<noteq> []" by simp
  from chunks_last_length[OF _ False, of 6] assms have "length (last (chunks 6 vs)) = 6"
    by simp
  then have "crd_line F (last (chunks 6 vs))
               = concat (map (fmt_f F 12 7) (last (chunks 6 vs))) @ [newline]"
    by (simp add: crd_line_def)
  moreover have "concat (map (crd_line F) (chunks 6 vs))
      = concat (map (crd_line F) (butlast (chunks 6 vs))) @ crd_line F (last (chunks 6 vs))"
    using arg_cong[OF append_butlast_last_id[OF ne], of "\<lambda>cs. concat (map (crd_line F) cs)"]
    by simp
  ultimately show ?thesis
    by (simp add: crd_text_def)
qed

lemma crd_text_partial:
  assumes "length vs mod 6 \<noteq> 0"
  shows "crd_text F title natoms vs
     = title @ [newline] @ fmt_d 6 (int natoms) @ [newline]
       @ concat (map (crd_line F) (butlast (chunks 6 vs)))
       @ concat (map (fmt_f F 12 7) (last (chunks 6 vs)))"
proof -
  from assms have False: "vs \<noteq> []" by auto
  from chunks_nonempty[OF False, of 6] have ne: "chunks 6 vs \<noteq> []" by simp
  from chunks_last_length[OF _ False, of 6] assms have "length (last (chunks 6 vs)) \<noteq> 6"
    by simp
  then have "crd_line F (last (chunks 6 vs)) = concat (map (fmt_f F 12 7) (last (chunks 6 vs)))"
    by (simp add: crd_line_def)
  moreover have "concat (map (crd_line F) (chunks 6 vs))
      = concat (map (crd_line F) (butlast (chunks 6 vs))) @ crd_line F (last (chunks 6 vs))"
    using arg_cong[OF append_butlast_last_id[OF ne], of "\<lambda>cs. concat (map (crd_line F) cs)"]
    by simp
  ultimately show ?thesis
    by (simp add: crd_text_def)
qed

text \<open>
  Claim C8, amended. For every call that passes the length check (and whose box-angles
  argument is not the coordinate list itself), \<open>writeAmberCrd\<close> succeeds and the file
  holds: the title and a newline; the atom count (the number of coordinates before the
  call, divided by 3) right-justified in width 6 and a newline; then all values, the
  positions, then the box dimensions if present, then the box angles if present, each
  in width 12 with 7 places, cut into lines of 6 values; a newline follows every line of
  6 values and nothing follows a last line of fewer than 6. So the file ends with a
  newline exactly when the number of values is a multiple of 6; otherwise it ends with
  the text of the last value.
\<close>

theorem coordinate_file_text:
  assumes "length (h coordinates) mod 3 = 0"
    and "box_angles \<noteq> Some coordinates"
    and "vs = h coordinates @ list_arg h box_dimensions @ list_arg h box_angles"
  shows "fst (writeAmberCrd F crd_filename coordinates title box_dimensions box_angles (h, fs))
           = Inr ()
    \<and> snd (snd (writeAmberCrd F crd_filename coordinates title box_dimensions box_angles (h, fs)))
        = fs(crd_filename \<mapsto> crd_text F title (length (h coordinates) div 3) vs)
    \<and> concat (chunks 6 vs) = vs
    \<and> list_all (\<lambda>c. length c = 6) (butlast (chunks 6 vs))
    \<and> (vs \<noteq> [] \<longrightarrow>
         length (last (chunks 6 vs)) = (if length vs mod 6 = 0 then 6 else length vs mod 6))
    \<and> (length vs mod 6 = 0 \<longrightarrow>
         last (crd_text F title (length (h coordinates) div 3) vs) = newline)
    \<and> (length vs mod 6 \<noteq> 0 \<longrightarrow>
         crd_text F title (length (h coordinates) div 3) vs
           = title @ [newline] @ fmt_d 6 (int (length (h coordinates) div 3)) @ [newline]
             @ concat (map (crd_line F) (butlast (chunks 6 vs)))
             @ concat (map (fmt_f F 12 7) (last (chunks 6 vs))))"
proof -
  have w: "writeAmberCrd F crd_filename coordinates title box_dimensions box_angles (h, fs)
     = (Inr (),
        append_if_true (append_if_true h coordinates box_dimensions) coordinates box_angles,
        fs(crd_filename \<mapsto> crd_text F title (length (h coordinates) div 3) vs))"
    unfolding writeAmberCrd_valid[where h = h and coordinates = coordinates, OF assms(1)] written_values[where h = h, OF assms(2)] assms(3) ..
  have c: "concat (chunks 6 vs) = vs"
    by (rule concat_chunks) simp
  have b: "list_all (\<lambda>c. length c = 6) (butlast (chunks 6 vs))"
    by (rule chunks_butlast_full) simp
  have l: "vs \<noteq> [] \<longrightarrow>
         length (last (chunks 6 vs)) = (if length vs mod 6 = 0 then 6 else length vs mod 6)"
    using chunks_last_length[of 6 vs] by simp
  from w c b l crd_text_full[of vs F title "length (h coordinates) div 3"]
    crd_text_partial[of vs F title "length (h coordinates) div 3"]
  show ?thesis by simp
qed

theorem coordinate_file_text_witness:
  "length (example_heap 0) mod 3 = 0
   \<and> snd (snd (writeAmberCrd (fixed_floats 3) ''out.crd'' 0 ''title'' (Some 1) (Some 2)
                 (example_heap, Map.empty))) ''out.crd''
       = Some (''title'' @ [newline] @ ''     1'' @ [newline]
               @ ''   1.0000000   2.0000000   3.0000000  30.0000000  30.0000000  30.0000000''
               @ [newline] @ ''  90.0000000  90.0000000  90.0000000'')"
proof -
  have a: "length (example_heap 0) mod 3 = 0"
    by (simp add: example_heap_def)
  have n: "Some 2 \<noteq> Some (0::nat)"
    by simp
  have v: "[1000, 2000, 3000, 30000, 30000, 30000, 90000, 90000, 90000]
             = example_heap 0 @ list_arg example_heap (Some 1) @ list_arg example_heap (Some 2)"
    by (simp add: example_heap_def list_arg_def)
  have c: "chunks 6 [1000, 2000, 3000, 30000, 30000, 30000, 90000, 90000, 90000 :: int]
             = [[1000, 2000, 3000, 30000, 30000, 30000], [90000, 90000, 90000]]"
    by (simp add: chunks_step chunks_short)
  have d: "length (example_heap 0) div 3 = 1"
    by (simp add: example_heap_def)
  from coordinate_file_text[where h = example_heap and coordinates = 0
      and box_dimensions = "Some 1" and box_angles = "Some 2" and F = "fixed_floats 3"
      and crd_filename = "''out.crd''" and title = "''title''" and fs = Map.empty, OF a n v]
  have "snd (snd (writeAmberCrd (fixed_floats 3) ''out.crd'' 0 ''title'' (Some 1) (Some 2)
                 (example_heap, Map.empty)))
        = [''out.crd'' \<mapsto> crd_text (fixed_floats 3) ''title'' 1
             [1000, 2000, 3000, 30000, 30000, 30000, 90000, 90000, 90000]]"
    by (simp add: d)
  then show ?thesis
    using a by (simp add: crd_text_def c crd_line_def fixed_values_text)
qed

section \<open>Reading a coordinate file\<close>

lemma extract_box_result:
  "extract_box title natoms cs =
     (if int (length cs) < 3 * natoms + 3 then Inl (UnboundLocalError ''box_dimensions'')
      else if int (length cs) \<noteq> 3 * natoms + 6 then Inl (UnboundLocalError ''box_angles'')
      else Inr (title, natoms, py_slice cs 0 (3 * natoms),
                Some (py_slice cs (3 * natoms) (3 * natoms + 3)),
                Some (py_slice cs (3 * natoms + 3) (3 * natoms + 6))))"
  by (simp add: extract_box_def Let_def)

lemma readAmberCrd_header:
  assumes "fs crd_filename = Some content"
    and "readlines content = l0 # l1 # lines"
    and "split l1 = tok # toks"
    and "py_int tok = Inr natoms"
    and "read_coordinates F lines [] = Inr cs"
  shows "readAmberCrd F fs crd_filename
           = extract_box (rstrip_chars [CHR '' '', newline] l0) natoms cs"
  using assms by (simp add: readAmberCrd_def readAmberCrd_lines_def)

section \<open>C2: box dimensions and angles\<close>

text \<open>
  Claim C2, on the code. For a file with a well-formed header (an integer atom count
  \<open>natoms\<close>) and numeric values, \<open>readAmberCrd\<close> returns normally exactly when the number
  of values is \<open>3 * natoms + 6\<close>, and then with both box fields. With fewer than
  \<open>3 * natoms + 3\<close> values the return statement raises UnboundLocalError for
  \<open>box_dimensions\<close>, and with any other number it raises UnboundLocalError for
  \<open>box_angles\<close>: a field that should be absent is never returned as \<open>None\<close>.
\<close>

theorem box_inference:
  assumes "fs crd_filename = Some content"
    and "readlines content = l0 # l1 # lines"
    and "split l1 = tok # toks"
    and "py_int tok = Inr natoms"
    and "read_coordinates F lines [] = Inr cs"
  shows "readAmberCrd F fs crd_filename =
     (if int (length cs) = 3 * natoms + 6
      then Inr (rstrip_chars [CHR '' '', newline] l0, natoms, py_slice cs 0 (3 * natoms),
                Some (py_slice cs (3 * natoms) (3 * natoms + 3)),
                Some (py_slice cs (3 * natoms + 3) (3 * natoms + 6)))
      else if int (length cs) < 3 * natoms + 3 then Inl (UnboundLocalError ''box_dimensions'')
      else Inl (UnboundLocalError ''box_angles''))"
  unfolding readAmberCrd_header[where fs = fs and crd_filename = crd_filename, OF assms] extract_box_result by simp

lemmas crd_eval =
  split_def py_float_def strip_def py_int_def digits_value_def bind_err_def fixed_eval

lemma example_crd_positions_parts:
  "readlines example_crd_positions
     = [''title'' @ [newline], ''     1'' @ [newline], ''   1.0000000   2.0000000   3.0000000'']"
  "split (''     1'' @ [newline]) = [''1'']"
  "py_int ''1'' = Inr 1"
  "read_coordinates (fixed_floats 3) [''   1.0000000   2.0000000   3.0000000''] []
     = Inr [1000, 2000, 3000]"
  by (simp_all add: example_crd_positions_def newline_def crd_eval)

lemma example_crd_dimensions_parts:
  "readlines example_crd_dimensions
     = [''title'' @ [newline], ''     1'' @ [newline],
        ''   1.0000000   2.0000000   3.0000000  30.0000000  30.0000000  30.0000000'' @ [newline]]"
  "read_coordinates (fixed_floats 3)
       [''   1.0000000   2.0000000   3.0000000  30.0000000  30.0000000  30.0000000'' @ [newline]] []
     = Inr [1000, 2000, 3000, 30000, 30000, 30000]"
  by (simp_all add: example_crd_dimensions_def newline_def crd_eval)

theorem box_inference_witness:
  "readAmberCrd (fixed_floats 3) [''in.crd'' \<mapsto> example_crd_positions] ''in.crd''
     = Inl (UnboundLocalError ''box_dimensions'')
   \<and> readAmberCrd (fixed_floats 3) [''in.crd'' \<mapsto> example_crd_dimensions] ''in.crd''
     = Inl (UnboundLocalError ''box_angles'')"
proof -
  have f: "[''in.crd'' \<mapsto> c] ''in.crd'' = Some c" for c :: string
    by simp
  from box_inference[where fs = "[''in.crd'' \<mapsto> example_crd_positions]"
      and crd_filename = "''in.crd''", OF f example_crd_positions_parts]
  have 1: "readAmberCrd (fixed_floats 3) [''in.crd'' \<mapsto> example_crd_positions] ''in.crd''
     = Inl (UnboundLocalError ''box_dimensions'')"
    by simp
  from box_inference[where fs = "[''in.crd'' \<mapsto> example_crd_dimensions]"
      and crd_filename = "''in.crd''", OF f example_crd_dimensions_parts(1)
      example_crd_positions_parts(2,3) example_crd_dimensions_parts(2)]
  have 2: "readAmberCrd (fixed_floats 3) [''in.crd'' \<mapsto> example_crd_dimensions] ''in.crd''
     = Inl (UnboundLocalError ''box_angles'')"
    by simp
  from 1 2 show ?thesis by simp
qed

section \<open>C4: fewer values than the atom count asks for\<close>

text \<open>
  Claim C4, on the code. For a file with a well-formed header and numeric values of
  which there are fewer than \<open>3 * natoms\<close>, \<open>readAmberCrd\<close> does not return: it raises,
  at its return statement, the UnboundLocalError of the variable \<open>box_dimensions\<close>. The
  function has no check of the number of values, and the exception is not that of a
  malformed field (ValueError).
\<close>

theorem too_few_values:
  assumes "fs crd_filename = Some content"
    and "readlines content = l0 # l1 # lines"
    and "split l1 = tok # toks"
    and "py_int tok = Inr natoms"
    and "read_coordinates F lines [] = Inr cs"
    and "int (length cs) < 3 * natoms"
  shows "readAmberCrd F fs crd_filename = Inl (UnboundLocalError ''box_dimensions'')"
  unfolding readAmberCrd_header[where fs = fs and crd_filename = crd_filename, OF assms(1-5)] extract_box_result using assms(6) by simp

lemma example_crd_short_parts:
  "readlines example_crd_short
     = [''title'' @ [newline], ''     1'' @ [newline], ''   1.0000000   2.0000000'' @ [newline]]"
  "read_coordinates (fixed_floats 3) [''   1.0000000   2.0000000'' @ [newline]] []
     = Inr [1000, 2000]"
  by (simp_all add: example_crd_short_def newline_def crd_eval)

theorem too_few_values_witness:
  "int (length [1000, 2000 :: int]) < 3 * 1
   \<and> readAmberCrd (fixed_floats 3) [''in.crd'' \<mapsto> example_crd_short] ''in.crd''
     = Inl (UnboundLocalError ''box_dimensions'')"
proof -
  have f: "[''in.crd'' \<mapsto> example_crd_short] ''in.crd'' = Some example_crd_short"
    by simp
  have l: "int (length [1000, 2000 :: int]) < 3 * 1"
    by simp
  from too_few_values[where fs = "[''in.crd'' \<mapsto> example_crd_short]"
      and crd_filename = "''in.crd''", OF f example_crd_short_parts(1)
      example_crd_positions_parts(2,3) example_crd_short_parts(2) l] l
  show ?thesis by simp
qed

section \<open>C9: the exit status of the external tools\<close>

lemma packmol_step_result:
  assumes "sh (''cd '' @ tmpdir @ '' ; '' @ packmol @ '' < '' @ packmol_input_filename) (files w)
             = ((status, output), fs')"
  shows "packmol_step sh F packmol tmpdir packmol_input_filename w
     = (readAtomsFromPDB F fs' (path_join tmpdir ''output.pdb''),
        \<lparr> files = fs',
          invoked = invoked w
            @ [Shell (''cd '' @ tmpdir @ '' ; '' @ packmol @ '' < '' @ packmol_input_filename)] \<rparr>)"
  using assms by (simp add: packmol_step_def getoutput_def Let_def)

lemma invoked_call: "call run cmd so se w = (r, w') \<Longrightarrow> invoked w' = invoked w @ [cmd]"
  by (auto simp: call_def split: prod.splits)

lemma grompp_fails:
  assumes "call run (grompp_cmd top_v gro mdp gropath grosuff)
             (run_file top_v ''gromacs_stdout.txt'') (run_file top_v ''gromacs_stderr.txt'') w
           = (Inr e1, w1)"
    and "e1 \<noteq> 0"
  shows "gromacs_energies run parse_energies top_v gro mdp gropath grosuff grompp_check w
           = (Inl (Exception (''grompp failed for '' @ top_v)), w1)"
  using assms by (simp add: gromacs_energies_def Let_def)

lemma mdrun_fails:
  assumes "call run (grompp_cmd top_v gro mdp gropath grosuff)
             (run_file top_v ''gromacs_stdout.txt'') (run_file top_v ''gromacs_stderr.txt'') w
           = (Inr 0, w1)"
    and "\<not> grompp_check"
    and "call run (mdrun_cmd top_v gropath grosuff)
             (run_file top_v ''gromacs_stdout.txt'') (run_file top_v ''gromacs_stderr.txt'') w1
           = (Inr e2, w2)"
    and "e2 \<noteq> 0"
  shows "gromacs_energies run parse_energies top_v gro mdp gropath grosuff grompp_check w
           = (Inl (Exception (''mdrun failed for '' @ top_v)), w2)"
  using assms by (simp add: gromacs_energies_def Let_def)

lemma genergy_fails:
  assumes "call run (grompp_cmd top_v gro mdp gropath grosuff)
             (run_file top_v ''gromacs_stdout.txt'') (run_file top_v ''gromacs_stderr.txt'') w
           = (Inr 0, w1)"
    and "\<not> grompp_check"
    and "call run (mdrun_cmd top_v gropath grosuff)
             (run_file top_v ''gromacs_stdout.txt'') (run_file top_v ''gromacs_stderr.txt'') w1
           = (Inr 0, w2)"
    and "call run (genergy_cmd top_v gropath grosuff)
             (run_file top_v ''gromacs_stdout.txt'') (run_file top_v ''gromacs_stderr.txt'') w2
           = (Inr e3, w3)"
    and "e3 \<noteq> 0"
  shows "gromacs_energies run parse_energies top_v gro mdp gropath grosuff grompp_check w
           = (Inl (Exception (''g_energy failed for '' @ top_v)), w3)"
  using assms by (simp add: gromacs_energies_def Let_def)

lemma example_short_line_read:
  "\<exists>a. readAtomsFromPDB (fixed_floats 3) [''/tmp/pack/output.pdb'' \<mapsto> example_short_line]
         ''/tmp/pack/output.pdb'' = Inr [a]"
proof -
  from parse_atom_defaults[OF example_short_line_facts(1)] example_short_line_facts(2,3)
  obtain a where a: "parse_atom (fixed_floats 3) example_short_line = Inr a"
    by blast
  have l: "readlines example_short_line = [example_short_line]"
    by (simp add: example_short_line_def newline_def)
  have "is_atom_line example_short_line"
    by (simp add: example_short_line_def is_atom_line_def substr_def)
  with a l show ?thesis
    by (simp add: readAtomsFromPDB_def)
qed

text \<open>
  Claim C9 as stated fails for the packing executable: the packing command exits with
  status 1, and the step does not abort but goes on to read the output file and returns
  its atoms.
\<close>

theorem exit_status_counterexample:
  "fst (fst (failing_packer ''cd /tmp/pack ; packmol < /tmp/pack/packmol.in'' Map.empty)) = 1
   \<and> invoked (snd (packmol_step failing_packer (fixed_floats 3) ''packmol'' ''/tmp/pack''
                      ''/tmp/pack/packmol.in'' empty_world))
       = [Shell ''cd /tmp/pack ; packmol < /tmp/pack/packmol.in'']
   \<and> (\<exists>a. fst (packmol_step failing_packer (fixed_floats 3) ''packmol'' ''/tmp/pack''
                  ''/tmp/pack/packmol.in'' empty_world) = Inr [a])"
proof -
  have s: "failing_packer (''cd '' @ ''/tmp/pack'' @ '' ; '' @ ''packmol'' @ '' < ''
                             @ ''/tmp/pack/packmol.in'') (files empty_world)
             = ((1, ''ERROR''), [''/tmp/pack/output.pdb'' \<mapsto> example_short_line])"
    by (simp add: failing_packer_def empty_world_def)
  have p: "path_join ''/tmp/pack'' ''output.pdb'' = ''/tmp/pack/output.pdb''"
    by (simp add: path_join_def)
  from packmol_step_result[where sh = failing_packer and tmpdir = "''/tmp/pack''"
      and packmol = "''packmol''" and packmol_input_filename = "''/tmp/pack/packmol.in''"
      and w = empty_world and F = "fixed_floats 3", OF s] example_short_line_read
  show ?thesis
    by (auto simp: p failing_packer_def empty_world_def)
qed

text \<open>
  Claim C9, amended. In \<open>gromacs_energies\<close> the three tools are started in the order
  grompp, mdrun, \<open>g_energy\<close>, each once: a non-zero exit status of one of them raises an
  exception whose message names the tool and the topology file, and no later tool is
  started (the started commands are exactly those up to the one that failed). In
  \<open>resolvate.py\<close> the exit status of the packing command is not looked at: whatever the
  status, the command is started once and the step goes on to read \<open>output.pdb\<close> in the
  temporary directory from the files the command left.
\<close>

theorem exit_status:
  "(call run (grompp_cmd top_v gro mdp gropath grosuff)
        (run_file top_v ''gromacs_stdout.txt'') (run_file top_v ''gromacs_stderr.txt'') w
      = (Inr ea, wa) \<and> ea \<noteq> 0
    \<longrightarrow> gromacs_energies run parse_energies top_v gro mdp gropath grosuff grompp_check w
          = (Inl (Exception (''grompp failed for '' @ top_v)), wa)
        \<and> invoked wa = invoked w @ [grompp_cmd top_v gro mdp gropath grosuff])
   \<and> (call run (grompp_cmd top_v gro mdp gropath grosuff)
        (run_file top_v ''gromacs_stdout.txt'') (run_file top_v ''gromacs_stderr.txt'') w
      = (Inr 0, wa) \<and> \<not> grompp_check
      \<and> call run (mdrun_cmd top_v gropath grosuff)
        (run_file top_v ''gromacs_stdout.txt'') (run_file top_v ''gromacs_stderr.txt'') wa
      = (Inr eb, wb) \<and> eb \<noteq> 0
    \<longrightarrow> gromacs_energies run parse_energies top_v gro mdp gropath grosuff grompp_check w
          = (Inl (Exception (''mdrun failed for '' @ top_v)), wb)
        \<and> invoked wb = invoked w @ [grompp_cmd top_v gro mdp gropath grosuff,
                                      mdrun_cmd top_v gropath grosuff])
   \<and> (call run (grompp_cmd top_v gro mdp gropath grosuff)
        (run_file top_v ''gromacs_stdout.txt'') (run_file top_v ''gromacs_stderr.txt'') w
      = (Inr 0, wa) \<and> \<not> grompp_check
      \<and> call run (mdrun_cmd top_v gropath grosuff)
        (run_file top_v ''gromacs_stdout.txt'') (run_file top_v ''gromacs_stderr.txt'') wa
      = (Inr 0, wb)
      \<and> call run (genergy_cmd top_v gropath grosuff)
        (run_file top_v ''gromacs_stdout.txt'') (run_file top_v ''gromacs_stderr.txt'') wb
      = (Inr ec, wc) \<and> ec \<noteq> 0
    \<longrightarrow> gromacs_energies run parse_energies top_v gro mdp gropath grosuff grompp_check w
          = (Inl (Exception (''g_energy failed for '' @ top_v)), wc)
        \<and> invoked wc = invoked w @ [grompp_cmd top_v gro mdp gropath grosuff,
                                      mdrun_cmd top_v gropath grosuff,
                                      genergy_cmd top_v gropath grosuff])
   \<and> (sh (''cd '' @ tmpdir @ '' ; '' @ packmol @ '' < '' @ packmol_input_filename) (files w)
      = ((status, printed), fs')
    \<longrightarrow> packmol_step sh F packmol tmpdir packmol_input_filename w
          = (readAtomsFromPDB F fs' (path_join tmpdir ''output.pdb''),
             \<lparr> files = fs',
               invoked = invoked w
                 @ [Shell (''cd '' @ tmpdir @ '' ; '' @ packmol @ '' < ''
                           @ packmol_input_filename)] \<rparr>))"
proof (intro conjI impI)
  assume "call run (grompp_cmd top_v gro mdp gropath grosuff)
        (run_file top_v ''gromacs_stdout.txt'') (run_file top_v ''gromacs_stderr.txt'') w
      = (Inr ea, wa) \<and> ea \<noteq> 0"
  then show "gromacs_energies run parse_energies top_v gro mdp gropath grosuff grompp_check w
          = (Inl (Exception (''grompp failed for '' @ top_v)), wa)"
    and "invoked wa = invoked w @ [grompp_cmd top_v gro mdp gropath grosuff]"
    using grompp_fails invoked_call by blast+
next
  assume a: "call run (grompp_cmd top_v gro mdp gropath grosuff)
        (run_file top_v ''gromacs_stdout.txt'') (run_file top_v ''gromacs_stderr.txt'') w
      = (Inr 0, wa) \<and> \<not> grompp_check
      \<and> call run (mdrun_cmd top_v gropath grosuff)
        (run_file top_v ''gromacs_stdout.txt'') (run_file top_v ''gromacs_stderr.txt'') wa
      = (Inr eb, wb) \<and> eb \<noteq> 0"
  then show "gromacs_energies run parse_energies top_v gro mdp gropath grosuff grompp_check w
          = (Inl (Exception (''mdrun failed for '' @ top_v)), wb)"
    using mdrun_fails by blast
  from a have "invoked wa = invoked w @ [grompp_cmd top_v gro mdp gropath grosuff]"
    and "invoked wb = invoked wa @ [mdrun_cmd top_v gropath grosuff]"
    using invoked_call by blast+
  then show "invoked wb = invoked w @ [grompp_cmd top_v gro mdp gropath grosuff,
                                      mdrun_cmd top_v gropath grosuff]"
    by simp
next
  assume a: "call run (grompp_cmd top_v gro mdp gropath grosuff)
        (run_file top_v ''gromacs_stdout.txt'') (run_file top_v ''gromacs_stderr.txt'') w
      = (Inr 0, wa) \<and> \<not> grompp_check
      \<and> call run (mdrun_cmd top_v gropath grosuff)
        (run_file top_v ''gromacs_stdout.txt'') (run_file top_v ''gromacs_stderr.txt'') wa
      = (Inr 0, wb)
      \<and> call run (genergy_cmd top_v gropath grosuff)
        (run_file top_v ''gromacs_stdout.txt'') (run_file top_v ''gromacs_stderr.txt'') wb
      = (Inr ec, wc) \<and> ec \<noteq> 0"
  then show "gromacs_energies run parse_energies top_v gro mdp gropath grosuff grompp_check w
          = (Inl (Exception (''g_energy failed for '' @ top_v)), wc)"
    using genergy_fails by blast
  from a have "invoked wa = invoked w @ [grompp_cmd top_v gro mdp gropath grosuff]"
    and "invoked wb = invoked wa @ [mdrun_cmd top_v gropath grosuff]"
    and "invoked wc = invoked wb @ [genergy_cmd top_v gropath grosuff]"
    using invoked_call by blast+
  then show "invoked wc = invoked w @ [grompp_cmd top_v gro mdp gropath grosuff,
                                      mdrun_cmd top_v gropath grosuff,
                                      genergy_cmd top_v gropath grosuff]"
    by simp
next
  assume "sh (''cd '' @ tmpdir @ '' ; '' @ packmol @ '' < '' @ packmol_input_filename) (files w)
      = ((status, printed), fs')"
  then show "packmol_step sh F packmol tmpdir packmol_input_filename w
          = (readAtomsFromPDB F fs' (path_join tmpdir ''output.pdb''),
             \<lparr> files = fs',
               invoked = invoked w
                 @ [Shell (''cd '' @ tmpdir @ '' ; '' @ packmol @ '' < ''
                           @ packmol_input_filename)] \<rparr>)"
    by (rule packmol_step_result[where sh = sh])
qed

lemma call_tool_exits:
  "call (tool_exits code) cmd so se w
     = (Inr (code cmd), \<lparr> files = (files w)(so \<mapsto> [], se \<mapsto> []), invoked = invoked w @ [cmd] \<rparr>)"
  by (simp add: call_def tool_exits_def)

lemma example_exit_codes:
  "only_mdrun_fails (grompp_cmd ''/sim/topol.top'' ''/sim/conf.gro'' ''/sim/grompp.mdp'' ''/usr/bin'' []) = 0"
  "only_mdrun_fails (mdrun_cmd ''/sim/topol.top'' ''/usr/bin'' []) = 1"
  "only_shell_fails (grompp_cmd ''/sim/topol.top'' ''/sim/conf.gro'' ''/sim/grompp.mdp'' ''/usr/bin'' []) = 0"
  "only_shell_fails (mdrun_cmd ''/sim/topol.top'' ''/usr/bin'' []) = 0"
  "only_shell_fails (genergy_cmd ''/sim/topol.top'' ''/usr/bin'' []) = 1"
  by (simp_all add: only_mdrun_fails_def only_shell_fails_def grompp_cmd_def mdrun_cmd_def
      genergy_cmd_def path_join_def)

theorem exit_status_witness:
  "fst (gromacs_energies (tool_exits (\<lambda>c. 1)) Inr ''/sim/topol.top'' ''/sim/conf.gro''
          ''/sim/grompp.mdp'' ''/usr/bin'' [] False empty_world)
     = Inl (Exception ''grompp failed for /sim/topol.top'')
   \<and> fst (gromacs_energies (tool_exits only_mdrun_fails) Inr ''/sim/topol.top'' ''/sim/conf.gro''
          ''/sim/grompp.mdp'' ''/usr/bin'' [] False empty_world)
     = Inl (Exception ''mdrun failed for /sim/topol.top'')
   \<and> fst (gromacs_energies (tool_exits only_shell_fails) Inr ''/sim/topol.top'' ''/sim/conf.gro''
          ''/sim/grompp.mdp'' ''/usr/bin'' [] False empty_world)
     = Inl (Exception ''g_energy failed for /sim/topol.top'')
   \<and> invoked (snd (gromacs_energies (tool_exits only_mdrun_fails) Inr ''/sim/topol.top''
          ''/sim/conf.gro'' ''/sim/grompp.mdp'' ''/usr/bin'' [] False empty_world))
     = [grompp_cmd ''/sim/topol.top'' ''/sim/conf.gro'' ''/sim/grompp.mdp'' ''/usr/bin'' [],
        mdrun_cmd ''/sim/topol.top'' ''/usr/bin'' []]
   \<and> fst (failing_packer ''cd /tmp/pack ; packmol < /tmp/pack/packmol.in'' Map.empty)
     = (1, ''ERROR'')
   \<and> fst (packmol_step failing_packer (fixed_floats 3) ''packmol'' ''/tmp/pack''
            ''/tmp/pack/packmol.in'' empty_world)
     = readAtomsFromPDB (fixed_floats 3) [''/tmp/pack/output.pdb'' \<mapsto> example_short_line]
         ''/tmp/pack/output.pdb''"
proof -
  let ?so = "run_file ''/sim/topol.top'' ''gromacs_stdout.txt''"
  let ?se = "run_file ''/sim/topol.top'' ''gromacs_stderr.txt''"
  let ?g = "grompp_cmd ''/sim/topol.top'' ''/sim/conf.gro'' ''/sim/grompp.mdp'' ''/usr/bin'' []"
  let ?m = "mdrun_cmd ''/sim/topol.top'' ''/usr/bin'' []"
  let ?e = "genergy_cmd ''/sim/topol.top'' ''/usr/bin'' []"
  let ?wa = "\<lparr> files = (files empty_world)(?so \<mapsto> [], ?se \<mapsto> []),
               invoked = invoked empty_world @ [?g] \<rparr>"
  let ?wb = "\<lparr> files = (files ?wa)(?so \<mapsto> [], ?se \<mapsto> []), invoked = invoked ?wa @ [?m] \<rparr>"
  let ?wc = "\<lparr> files = (files ?wb)(?so \<mapsto> [], ?se \<mapsto> []), invoked = invoked ?wb @ [?e] \<rparr>"
  have h1: "call (tool_exits (\<lambda>c. 1)) ?g ?so ?se empty_world = (Inr 1, ?wa) \<and> (1::int) \<noteq> 0"
    by (simp add: call_tool_exits)
  have 1: "fst (gromacs_energies (tool_exits (\<lambda>c. 1)) Inr ''/sim/topol.top'' ''/sim/conf.gro''
          ''/sim/grompp.mdp'' ''/usr/bin'' [] False empty_world)
     = Inl (Exception ''grompp failed for /sim/topol.top'')"
    using exit_status[where run = "tool_exits (\<lambda>c. 1)" and top_v = "''/sim/topol.top''"
        and gro = "''/sim/conf.gro''" and mdp = "''/sim/grompp.mdp''" and gropath = "''/usr/bin''"
        and grosuff = "[]" and w = empty_world and ea = 1 and wa = "?wa"
        and parse_energies = Inr and grompp_check = False,
        THEN conjunct1, rule_format, OF h1]
    by simp
  have h2: "call (tool_exits only_mdrun_fails) ?g ?so ?se empty_world = (Inr 0, ?wa)
      \<and> \<not> False
      \<and> call (tool_exits only_mdrun_fails) ?m ?so ?se ?wa = (Inr 1, ?wb) \<and> (1::int) \<noteq> 0"
    by (simp add: call_tool_exits example_exit_codes)
  have 2: "gromacs_energies (tool_exits only_mdrun_fails) Inr ''/sim/topol.top'' ''/sim/conf.gro''
          ''/sim/grompp.mdp'' ''/usr/bin'' [] False empty_world
     = (Inl (Exception ''mdrun failed for /sim/topol.top''), ?wb)"
    using exit_status[where run = "tool_exits only_mdrun_fails" and top_v = "''/sim/topol.top''"
        and gro = "''/sim/conf.gro''" and mdp = "''/sim/grompp.mdp''" and gropath = "''/usr/bin''"
        and grosuff = "[]" and w = empty_world and wa = "?wa" and eb = 1 and wb = "?wb"
        and parse_energies = Inr and grompp_check = False,
        THEN conjunct2, THEN conjunct1, rule_format, OF h2]
    by simp
  have h3: "call (tool_exits only_shell_fails) ?g ?so ?se empty_world = (Inr 0, ?wa)
      \<and> \<not> False
      \<and> call (tool_exits only_shell_fails) ?m ?so ?se ?wa = (Inr 0, ?wb)
      \<and> call (tool_exits only_shell_fails) ?e ?so ?se ?wb = (Inr 1, ?wc) \<and> (1::int) \<noteq> 0"
    by (simp add: call_tool_exits example_exit_codes)
  have 3: "fst (gromacs_energies (tool_exits only_shell_fails) Inr ''/sim/topol.top'' ''/sim/conf.gro''
          ''/sim/grompp.mdp'' ''/usr/bin'' [] False empty_world)
     = Inl (Exception ''g_energy failed for /sim/topol.top'')"
    using exit_status[where run = "tool_exits only_shell_fails" and top_v = "''/sim/topol.top''"
        and gro = "''/sim/conf.gro''" and mdp = "''/sim/grompp.mdp''" and gropath = "''/usr/bin''"
        and grosuff = "[]" and w = empty_world and wa = "?wa" and wb = "?wb" and ec = 1
        and wc = "?wc" and parse_energies = Inr and grompp_check = False,
        THEN conjunct2, THEN conjunct2, THEN conjunct1, rule_format, OF h3]
    by simp
  have s: "failing_packer (''cd '' @ ''/tmp/pack'' @ '' ; '' @ ''packmol'' @ '' < ''
                             @ ''/tmp/pack/packmol.in'') (files empty_world)
             = ((1, ''ERROR''), [''/tmp/pack/output.pdb'' \<mapsto> example_short_line])"
    by (simp add: failing_packer_def empty_world_def)
  have p: "path_join ''/tmp/pack'' ''output.pdb'' = ''/tmp/pack/output.pdb''"
    by (simp add: path_join_def)
  have 4: "fst (packmol_step failing_packer (fixed_floats 3) ''packmol'' ''/tmp/pack''
            ''/tmp/pack/packmol.in'' empty_world)
     = readAtomsFromPDB (fixed_floats 3) [''/tmp/pack/output.pdb'' \<mapsto> example_short_line]
         ''/tmp/pack/output.pdb''"
    using exit_status[where sh = failing_packer and tmpdir = "''/tmp/pack''"
        and packmol = "''packmol''" and packmol_input_filename = "''/tmp/pack/packmol.in''"
        and w = empty_world and F = "fixed_floats 3" and status = 1 and printed = "''ERROR''"
        and fs' = "[''/tmp/pack/output.pdb'' \<mapsto> example_short_line]",
        THEN conjunct2, THEN conjunct2, THEN conjunct2, rule_format, OF s]
    by (simp add: p)
  have 5: "fst (failing_packer ''cd /tmp/pack ; packmol < /tmp/pack/packmol.in'' Map.empty)
     = (1, ''ERROR'')"
    by (simp add: failing_packer_def)
  from 1 2 3 4 5 show ?thesis
    by (simp add: empty_world_def)
qed

end
